theory Spec2Isabelle
  imports Main "HOL-Library.Log_Nat" "HOL-Library.Sublist"
begin

section \<open>Python values used by the book server\<close>

subsection \<open>Floats\<close>

text \<open>
  A Python float is an IEEE 754 binary64 number. A finite float is kept by the exact
  rational number it denotes; the two signed zeros, which Python compares equal, are the
  one value \<open>Finite 0\<close>. Arithmetic computes the exact rational result and rounds it to
  the nearest binary64 number, ties to the even significand, as the hardware does.
\<close>

datatype pyfloat = Finite rat | PosInf | NegInf | NaN

definition pow2 :: "int \<Rightarrow> rat" where
  "pow2 k = (if 0 \<le> k then 2 ^ nat k else 1 / 2 ^ nat (- k))"

text \<open>\<open>ilog2 q\<close> is the integer \<open>e\<close> with \<open>2 ^ e \<le> q < 2 ^ (e + 1)\<close>, for \<open>0 < q\<close>.\<close>

definition ilog2 :: "rat \<Rightarrow> int" where
  "ilog2 q = (if 1 \<le> q then bitlen \<lfloor>q\<rfloor> - 1 else - bitlen (\<lceil>1 / q\<rceil> - 1))"

definition round_half_even :: "rat \<Rightarrow> int" where
  "round_half_even q =
     (let f = \<lfloor>q\<rfloor>; d = q - of_int f
      in if d < 1 / 2 then f else if 1 / 2 < d then f + 1 else if even f then f else f + 1)"

text \<open>
  Rounding to binary64: 53 significant bits, the least exponent of the last place is
  \<open>-1074\<close> (subnormal numbers), and a rounded magnitude of \<open>2 ^ 1024\<close> or more overflows
  to an infinity.
\<close>

definition round64 :: "rat \<Rightarrow> pyfloat" where
  "round64 q =
     (if q = 0 then Finite 0
      else let a = \<bar>q\<bar>;
               p = max (ilog2 a - 52) (- 1074);
               v = of_int (round_half_even (a / pow2 p)) * pow2 p
           in if 1024 \<le> ilog2 v then (if 0 < q then PosInf else NegInf)
              else Finite (if 0 < q then v else - v))"

text \<open>A decimal literal of the source denotes the float nearest to it.\<close>

definition float_lit :: "rat \<Rightarrow> pyfloat" where
  "float_lit q = round64 q"

datatype error = KeyError | TypeError | ZeroDivisionError | OverflowError

text \<open>Converting an integer to a float raises \<open>OverflowError\<close> when it is too large.\<close>

definition float_of_int :: "int \<Rightarrow> error + pyfloat" where
  "float_of_int i =
     (case round64 (of_int i) of Finite q \<Rightarrow> Inr (Finite q) | _ \<Rightarrow> Inl OverflowError)"

fun float_add :: "pyfloat \<Rightarrow> pyfloat \<Rightarrow> pyfloat" where
  "float_add (Finite a) (Finite b) = round64 (a + b)"
| "float_add NaN _ = NaN"
| "float_add _ NaN = NaN"
| "float_add PosInf NegInf = NaN"
| "float_add NegInf PosInf = NaN"
| "float_add PosInf _ = PosInf"
| "float_add NegInf _ = NegInf"
| "float_add (Finite a) y = y"

text \<open>The IEEE quotient by a divisor that is not zero.\<close>

fun float_quot :: "pyfloat \<Rightarrow> pyfloat \<Rightarrow> pyfloat" where
  "float_quot (Finite a) (Finite b) = round64 (a / b)"
| "float_quot NaN _ = NaN"
| "float_quot _ NaN = NaN"
| "float_quot (Finite a) _ = Finite 0"
| "float_quot PosInf (Finite b) = (if 0 < b then PosInf else NegInf)"
| "float_quot NegInf (Finite b) = (if 0 < b then NegInf else PosInf)"
| "float_quot _ _ = NaN"

text \<open>Python's \<open>x / y\<close> on floats raises on a zero divisor, whatever \<open>x\<close> is.\<close>

definition float_truediv :: "pyfloat \<Rightarrow> pyfloat \<Rightarrow> error + pyfloat" where
  "float_truediv x y = (if y = Finite 0 then Inl ZeroDivisionError else Inr (float_quot x y))"

fun float_lt :: "pyfloat \<Rightarrow> pyfloat \<Rightarrow> bool" where
  "float_lt (Finite a) (Finite b) = (a < b)"
| "float_lt NaN _ = False"
| "float_lt _ NaN = False"
| "float_lt _ NegInf = False"
| "float_lt PosInf _ = False"
| "float_lt _ _ = True"

fun float_eq :: "pyfloat \<Rightarrow> pyfloat \<Rightarrow> bool" where
  "float_eq NaN _ = False"
| "float_eq _ NaN = False"
| "float_eq x y = (x = y)"

text \<open>Negation, subtraction and the absolute value are exact; \<open>x \<le> y\<close> is false on a NaN.\<close>

fun float_neg :: "pyfloat \<Rightarrow> pyfloat" where
  "float_neg (Finite a) = Finite (- a)"
| "float_neg PosInf = NegInf"
| "float_neg NegInf = PosInf"
| "float_neg NaN = NaN"

definition float_sub :: "pyfloat \<Rightarrow> pyfloat \<Rightarrow> pyfloat" where
  "float_sub x y = float_add x (float_neg y)"

fun float_abs :: "pyfloat \<Rightarrow> pyfloat" where
  "float_abs (Finite a) = Finite \<bar>a\<bar>"
| "float_abs NaN = NaN"
| "float_abs x = PosInf"

definition float_le :: "pyfloat \<Rightarrow> pyfloat \<Rightarrow> bool" where
  "float_le x y \<longleftrightarrow> float_lt x y \<or> float_eq x y"

fun is_finite :: "pyfloat \<Rightarrow> bool" where
  "is_finite (Finite a) = True"
| "is_finite x = False"

subsection \<open>Dynamically typed values and dictionaries\<close>

datatype pyval = VInt int | VStr string | VBool bool | VFloat pyfloat

text \<open>
  A dictionary literal is the list of its items, in the order written; \<open>d[k]\<close> raises
  \<open>KeyError\<close> when the key is absent.
\<close>

type_synonym pydict = "(string \<times> pyval) list"

definition getitem :: "pydict \<Rightarrow> string \<Rightarrow> error + pyval" where
  "getitem d k = (case map_of d k of None \<Rightarrow> Inl KeyError | Some v \<Rightarrow> Inr v)"

text \<open>
  The exact numeric value of a number: integers and floats compare by value, and
  \<open>bool\<close> is a subtype of \<open>int\<close>. A string has none.
\<close>

fun int_value :: "pyval \<Rightarrow> int option" where
  "int_value (VInt i) = Some i"
| "int_value (VBool b) = Some (if b then 1 else 0)"
| "int_value _ = None"

fun num_value :: "pyval \<Rightarrow> pyfloat option" where
  "num_value (VFloat f) = Some f"
| "num_value (VStr s) = None"
| "num_value v = map_option (\<lambda>i. Finite (of_int i)) (int_value v)"

text \<open>\<open>a == b\<close>: never raises; values of unrelated types are unequal.\<close>

fun py_eq :: "pyval \<Rightarrow> pyval \<Rightarrow> bool" where
  "py_eq (VStr s) (VStr t) = (s = t)"
| "py_eq a b =
     (case (num_value a, num_value b) of (Some x, Some y) \<Rightarrow> float_eq x y | _ \<Rightarrow> False)"

text \<open>\<open>a > r\<close> for a float \<open>r\<close>: a \<open>TypeError\<close> unless \<open>a\<close> is a number.\<close>

definition py_gt_float :: "pyval \<Rightarrow> pyfloat \<Rightarrow> error + bool" where
  "py_gt_float a r = (case num_value a of None \<Rightarrow> Inl TypeError | Some x \<Rightarrow> Inr (float_lt r x))"

text \<open>The operand of a float operation: a float, or an integer converted to one.\<close>

fun as_float :: "pyval \<Rightarrow> error + pyfloat" where
  "as_float (VFloat f) = Inr f"
| "as_float (VStr s) = Inl TypeError"
| "as_float v = (case int_value v of None \<Rightarrow> Inl TypeError | Some i \<Rightarrow> float_of_int i)"

text \<open>
  \<open>a + b\<close>: integer addition on integers, float addition as soon as one operand is a
  float, concatenation on strings.
\<close>

fun py_add :: "pyval \<Rightarrow> pyval \<Rightarrow> error + pyval" where
  "py_add (VStr s) (VStr t) = Inr (VStr (s @ t))"
| "py_add a b =
     (case (num_value a, num_value b) of
        (Some _, Some _) \<Rightarrow>
          (case (int_value a, int_value b) of
             (Some i, Some j) \<Rightarrow> Inr (VInt (i + j))
           | _ \<Rightarrow>
             (case as_float a of Inl e \<Rightarrow> Inl e
              | Inr x \<Rightarrow>
                (case as_float b of Inl e \<Rightarrow> Inl e
                 | Inr y \<Rightarrow> Inr (VFloat (float_add x y)))))
      | _ \<Rightarrow> Inl TypeError)"

text \<open>
  \<open>a / b\<close>, true division: always a float. On two integers it is the exact quotient
  rounded once; a zero divisor raises.
\<close>

definition py_truediv :: "pyval \<Rightarrow> pyval \<Rightarrow> error + pyfloat" where
  "py_truediv a b =
     (case (num_value a, num_value b) of
        (Some _, Some _) \<Rightarrow>
          (case (int_value a, int_value b) of
             (Some i, Some j) \<Rightarrow>
               if j = 0 then Inl ZeroDivisionError
               else (case round64 (of_int i / of_int j) of
                       Finite q \<Rightarrow> Inr (Finite q) | _ \<Rightarrow> Inl OverflowError)
           | _ \<Rightarrow>
             (case as_float a of Inl e \<Rightarrow> Inl e
              | Inr x \<Rightarrow>
                (case as_float b of Inl e \<Rightarrow> Inl e | Inr y \<Rightarrow> float_truediv x y)))
      | _ \<Rightarrow> Inl TypeError)"

section \<open>The data\<close>

definition BOOKS_DATABASE :: "pydict list" where
  "BOOKS_DATABASE =
    [ [(''id'', VInt 1),
       (''title'', VStr ''The Great Gatsby''),
       (''author'', VStr ''F. Scott Fitzgerald''),
       (''genre'', VStr ''Classic Fiction''),
       (''year'', VInt 1925),
       (''isbn'', VStr ''978-0743273565''),
       (''available'', VBool True),
       (''rating'', VFloat (float_lit 4.5))],
      [(''id'', VInt 2),
       (''title'', VStr ''To Kill a Mockingbird''),
       (''author'', VStr ''Harper Lee''),
       (''genre'', VStr ''Classic Fiction''),
       (''year'', VInt 1960),
       (''isbn'', VStr ''978-0446310789''),
       (''available'', VBool True),
       (''rating'', VFloat (float_lit 4.8))],
      [(''id'', VInt 3),
       (''title'', VStr ''1984''),
       (''author'', VStr ''George Orwell''),
       (''genre'', VStr ''Dystopian Fiction''),
       (''year'', VInt 1949),
       (''isbn'', VStr ''978-0451524935''),
       (''available'', VBool False),
       (''rating'', VFloat (float_lit 4.7))],
      [(''id'', VInt 4),
       (''title'', VStr ''Pride and Prejudice''),
       (''author'', VStr ''Jane Austen''),
       (''genre'', VStr ''Romance''),
       (''year'', VInt 1813),
       (''isbn'', VStr ''978-0141439518''),
       (''available'', VBool True),
       (''rating'', VFloat (float_lit 4.6))],
      [(''id'', VInt 5),
       (''title'', VStr ''The Catcher in the Rye''),
       (''author'', VStr ''J.D. Salinger''),
       (''genre'', VStr ''Classic Fiction''),
       (''year'', VInt 1951),
       (''isbn'', VStr ''978-0316769488''),
       (''available'', VBool True),
       (''rating'', VFloat (float_lit 4.2))],
      [(''id'', VInt 6),
       (''title'', VStr ''Brave New World''),
       (''author'', VStr ''Aldous Huxley''),
       (''genre'', VStr ''Dystopian Fiction''),
       (''year'', VInt 1932),
       (''isbn'', VStr ''978-0060850524''),
       (''available'', VBool True),
       (''rating'', VFloat (float_lit 4.4))],
      [(''id'', VInt 7),
       (''title'', VStr ''The Hobbit''),
       (''author'', VStr ''J.R.R. Tolkien''),
       (''genre'', VStr ''Fantasy''),
       (''year'', VInt 1937),
       (''isbn'', VStr ''978-0547928227''),
       (''available'', VBool False),
       (''rating'', VFloat (float_lit 4.9))],
      [(''id'', VInt 8),
       (''title'', VStr ''Fahrenheit 451''),
       (''author'', VStr ''Ray Bradbury''),
       (''genre'', VStr ''Dystopian Fiction''),
       (''year'', VInt 1953),
       (''isbn'', VStr ''978-1451673319''),
       (''available'', VBool True),
       (''rating'', VFloat (float_lit 4.3))],
      [(''id'', VInt 9),
       (''title'', VStr ''Dune''),
       (''author'', VStr ''Frank Herbert''),
       (''genre'', VStr ''Science Fiction''),
       (''year'', VInt 1965),
       (''isbn'', VStr ''978-0441172719''),
       (''available'', VBool True),
       (''rating'', VFloat (float_lit 4.7))],
      [(''id'', VInt 10),
       (''title'', VStr ''The Lord of the Rings''),
       (''author'', VStr ''J.R.R. Tolkien''),
       (''genre'', VStr ''Fantasy''),
       (''year'', VInt 1954),
       (''isbn'', VStr ''978-0544003415''),
       (''available'', VBool True),
       (''rating'', VFloat (float_lit 4.9))] ]"


section \<open>The tools\<close>

subsection \<open>Input and output models\<close>

text \<open>
  The input models hold one validated field each: a string, a float, an integer. The
  output models are built from a float and a string, or from a list of dictionaries with
  string keys, which their validation accepts as they are. A Python string is kept as
  the list of the bytes of its UTF-8 encoding, on which equality is equality of strings.
\<close>

record GenreInput =
  genre :: string

record RatingInput =
  rating :: pyfloat

record YearInput =
  year :: int

record AverageRatingResult =
  average_rating :: pyfloat
  genre :: string

record BooksList =
  books :: "pydict list"

subsection \<open>Comprehensions and the sum\<close>

text \<open>
  \<open>[b for b in db if cond(b)]\<close>: the condition is evaluated on the records in order, the
  first exception it raises ends the comprehension.
\<close>

fun comprehension :: "(pydict \<Rightarrow> error + bool) \<Rightarrow> pydict list \<Rightarrow> error + pydict list" where
  "comprehension cond [] = Inr []"
| "comprehension cond (b # bs) =
     (case cond b of Inl e \<Rightarrow> Inl e
      | Inr t \<Rightarrow>
        (case comprehension cond bs of Inl e \<Rightarrow> Inl e
         | Inr r \<Rightarrow> Inr (if t then b # r else r)))"

text \<open>
  The builtin \<open>sum\<close> starts from the integer \<open>0\<close> and adds the items from left to right.
  How it accumulates floats depends on the interpreter: CPython up to 3.11 adds each item
  to the running total, every addition rounded; CPython from 3.12 on carries the rounding
  errors of the float additions in a compensation term (Neumaier's algorithm) and adds
  it to the total at the end. The model takes which of the two the interpreter has.
\<close>

datatype builtin_sum = Plain | Compensated

text \<open>
  The accumulator of the builtin: a machine integer while all items were integers, a
  float total with its compensation while the items are floats, an object otherwise.
  A C \<open>long\<close> has 64 bits.
\<close>

datatype sum_acc = Int_acc int | Float_acc pyfloat pyfloat | Obj_acc pyval

definition fits_long :: "int \<Rightarrow> bool" where
  "fits_long i \<longleftrightarrow> - (2 ^ 63) \<le> i \<and> i < 2 ^ 63"

definition sum_start :: "builtin_sum \<Rightarrow> sum_acc" where
  "sum_start alg = (case alg of Plain \<Rightarrow> Obj_acc (VInt 0) | Compensated \<Rightarrow> Int_acc 0)"

text \<open>The total with its compensation: the compensation counts when it is finite and not zero.\<close>

definition compensate :: "pyfloat \<Rightarrow> pyfloat \<Rightarrow> pyfloat" where
  "compensate f c = (if c \<noteq> Finite 0 \<and> is_finite c then float_add f c else f)"

text \<open>The object the accumulator stands for, and the generic addition of an item to it.\<close>

fun sum_value :: "sum_acc \<Rightarrow> pyval" where
  "sum_value (Int_acc i) = VInt i"
| "sum_value (Float_acc f c) = VFloat (compensate f c)"
| "sum_value (Obj_acc r) = r"

definition sum_generic :: "sum_acc \<Rightarrow> pyval \<Rightarrow> error + sum_acc" where
  "sum_generic acc v =
     (case py_add (sum_value acc) v of Inl e \<Rightarrow> Inl e
      | Inr r \<Rightarrow>
        (case (acc, r) of
           (Int_acc i, VFloat f) \<Rightarrow> Inr (Float_acc f (Finite 0))
         | _ \<Rightarrow> Inr (Obj_acc r)))"

text \<open>
  One item: integers are added in the machine integer while they fit; a float is added to
  the float total and the rounding error of the addition to the compensation; an integer
  that fits a \<open>long\<close> is added to the float total converted; anything else goes through
  the generic addition, after which the sum goes on without compensation.
\<close>

fun sum_step :: "sum_acc \<Rightarrow> pyval \<Rightarrow> error + sum_acc" where
  "sum_step (Int_acc i) v =
     (case int_value v of
        Some j \<Rightarrow>
          if fits_long j \<and> fits_long (i + j) then Inr (Int_acc (i + j))
          else sum_generic (Int_acc i) v
      | None \<Rightarrow> sum_generic (Int_acc i) v)"
| "sum_step (Float_acc f c) (VFloat x) =
     (let t = float_add f x
      in Inr (Float_acc t
           (float_add c
              (if float_le (float_abs x) (float_abs f) then float_add (float_sub f t) x
               else float_add (float_sub x t) f))))"
| "sum_step (Float_acc f c) v =
     (case int_value v of
        Some j \<Rightarrow>
          if fits_long j then Inr (Float_acc (float_add f (round64 (of_int j))) c)
          else sum_generic (Float_acc f c) v
      | None \<Rightarrow> sum_generic (Float_acc f c) v)"
| "sum_step (Obj_acc r) v = sum_generic (Obj_acc r) v"

text \<open>
  \<open>sum(b['rating'] for b in books)\<close>: the generator yields \<open>b['rating']\<close> for one record
  after the other, and the first exception ends the sum.
\<close>

fun sum_ratings :: "sum_acc \<Rightarrow> pydict list \<Rightarrow> error + pyval" where
  "sum_ratings acc [] = Inr (sum_value acc)"
| "sum_ratings acc (b # bs) =
     (case getitem b ''rating'' of Inl e \<Rightarrow> Inl e
      | Inr v \<Rightarrow>
        (case sum_step acc v of Inl e \<Rightarrow> Inl e
         | Inr acc' \<Rightarrow> sum_ratings acc' bs))"

subsection \<open>The four tool functions\<close>

text \<open>
  The conditions of the three comprehensions: \<open>b['genre'] == params.genre\<close>,
  \<open>b['rating'] > params.rating\<close> and \<open>b['year'] == params.year\<close>.
\<close>

definition genre_is :: "string \<Rightarrow> pydict \<Rightarrow> error + bool" where
  "genre_is g b = (case getitem b ''genre'' of Inl e \<Rightarrow> Inl e | Inr v \<Rightarrow> Inr (py_eq v (VStr g)))"

definition rating_above :: "pyfloat \<Rightarrow> pydict \<Rightarrow> error + bool" where
  "rating_above r b = (case getitem b ''rating'' of Inl e \<Rightarrow> Inl e | Inr v \<Rightarrow> py_gt_float v r)"

definition year_is :: "int \<Rightarrow> pydict \<Rightarrow> error + bool" where
  "year_is y b = (case getitem b ''year'' of Inl e \<Rightarrow> Inl e | Inr v \<Rightarrow> Inr (py_eq v (VInt y)))"

text \<open>
  Lines 209 to 212 of the source, on the list \<open>books\<close> that the comprehension built.
\<close>

definition average_of ::
    "builtin_sum \<Rightarrow> string \<Rightarrow> pydict list \<Rightarrow> error + AverageRatingResult" where
  "average_of alg g books' =
     (if books' = [] then Inr \<lparr>average_rating = float_lit 0, genre = g\<rparr>
      else
        (case sum_ratings (sum_start alg) books' of Inl e \<Rightarrow> Inl e
         | Inr sm \<Rightarrow>
           (case py_truediv sm (VInt (int (length books'))) of Inl e \<Rightarrow> Inl e
            | Inr avg \<Rightarrow> Inr \<lparr>average_rating = avg, genre = g\<rparr>)))"

text \<open>
  Each tool reads the module-level list \<open>BOOKS_DATABASE\<close>. Here the tools are functions
  of the records the list holds when they are called; the section after this one runs
  them on the objects of the module.
\<close>

definition get_average_rating_by_genre ::
    "builtin_sum \<Rightarrow> pydict list \<Rightarrow> GenreInput \<Rightarrow> error + AverageRatingResult" where
  "get_average_rating_by_genre alg db params =
     (case comprehension (genre_is (GenreInput.genre params)) db of Inl e \<Rightarrow> Inl e
      | Inr books' \<Rightarrow> average_of alg (GenreInput.genre params) books')"

definition get_books_by_genre :: "pydict list \<Rightarrow> GenreInput \<Rightarrow> error + BooksList" where
  "get_books_by_genre db params =
     (case comprehension (genre_is (GenreInput.genre params)) db of Inl e \<Rightarrow> Inl e
      | Inr books' \<Rightarrow> Inr \<lparr>books = books'\<rparr>)"

definition get_books_by_rating_above :: "pydict list \<Rightarrow> RatingInput \<Rightarrow> error + BooksList" where
  "get_books_by_rating_above db params =
     (case comprehension (rating_above (rating params)) db of Inl e \<Rightarrow> Inl e
      | Inr books' \<Rightarrow> Inr \<lparr>books = books'\<rparr>)"

definition get_books_by_year :: "pydict list \<Rightarrow> YearInput \<Rightarrow> error + BooksList" where
  "get_books_by_year db params =
     (case comprehension (year_is (year params)) db of Inl e \<Rightarrow> Inl e
      | Inr books' \<Rightarrow> Inr \<lparr>books = books'\<rparr>)"

datatype tool_call =
    Average_rating_by_genre GenreInput
  | Books_by_genre GenreInput
  | Books_by_rating_above RatingInput
  | Books_by_year YearInput

datatype tool_output = Average AverageRatingResult | Books BooksList

fun run_tool :: "builtin_sum \<Rightarrow> tool_call \<Rightarrow> pydict list \<Rightarrow> error + tool_output" where
  "run_tool alg (Average_rating_by_genre params) db =
     map_sum id Average (get_average_rating_by_genre alg db params)"
| "run_tool alg (Books_by_genre params) db = map_sum id Books (get_books_by_genre db params)"
| "run_tool alg (Books_by_rating_above params) db =
     map_sum id Books (get_books_by_rating_above db params)"
| "run_tool alg (Books_by_year params) db = map_sum id Books (get_books_by_year db params)"

section \<open>The tools on the objects of the module\<close>

text \<open>
  Lists and dictionaries are mutable objects, and the names of the program hold
  references to them. The store holds the objects by address and the binding of the
  global \<open>BOOKS_DATABASE\<close>. A new object takes the next free address; no object is ever
  removed, so an address once handed out stays valid.
\<close>

type_synonym addr = nat

datatype obj = Dict_obj pydict | List_obj "addr list"

record store =
  heap :: "obj list"
  books_global :: addr

text \<open>
  Running the module creates the ten dictionaries of the literal, then the list of them,
  and binds \<open>BOOKS_DATABASE\<close> to the list.
\<close>

definition initial_store :: store where
  "initial_store =
     \<lparr>heap = map Dict_obj BOOKS_DATABASE @ [List_obj [0..<length BOOKS_DATABASE]],
      books_global = length BOOKS_DATABASE\<rparr>"

text \<open>
  Reading through a reference. A reference of the program always leads to an object of
  the kind the operation expects; the model answers \<open>TypeError\<close> otherwise.
\<close>

definition read_list :: "store \<Rightarrow> addr \<Rightarrow> error + addr list" where
  "read_list s a =
     (if a < length (heap s) then
        (case heap s ! a of List_obj xs \<Rightarrow> Inr xs | _ \<Rightarrow> Inl TypeError)
      else Inl TypeError)"

definition read_dict :: "store \<Rightarrow> addr \<Rightarrow> error + pydict" where
  "read_dict s a =
     (if a < length (heap s) then
        (case heap s ! a of Dict_obj d \<Rightarrow> Inr d | _ \<Rightarrow> Inl TypeError)
      else Inl TypeError)"

fun read_dicts :: "store \<Rightarrow> addr list \<Rightarrow> error + pydict list" where
  "read_dicts s [] = Inr []"
| "read_dicts s (a # as) =
     (case read_dict s a of Inl e \<Rightarrow> Inl e
      | Inr d \<Rightarrow> (case read_dicts s as of Inl e \<Rightarrow> Inl e | Inr ds \<Rightarrow> Inr (d # ds)))"

text \<open>The records of a list object, as values and in order.\<close>

definition records_of :: "store \<Rightarrow> addr \<Rightarrow> error + pydict list" where
  "records_of s l = (case read_list s l of Inl e \<Rightarrow> Inl e | Inr as \<Rightarrow> read_dicts s as)"

text \<open>The collection: the records of the list that the global is bound to.\<close>

definition collection :: "store \<Rightarrow> error + pydict list" where
  "collection s = records_of s (books_global s)"

text \<open>The two writes of the tools: creating an object, and \<open>append\<close> on a list object.\<close>

definition alloc :: "obj \<Rightarrow> store \<Rightarrow> addr \<times> store" where
  "alloc x s = (length (heap s), s\<lparr>heap := heap s @ [x]\<rparr>)"

definition list_append :: "addr \<Rightarrow> addr \<Rightarrow> store \<Rightarrow> (error + unit) \<times> store" where
  "list_append l a s =
     (case read_list s l of Inl e \<Rightarrow> (Inl e, s)
      | Inr xs \<Rightarrow> (Inr (), s\<lparr>heap := (heap s)[l := List_obj (xs @ [a])]\<rparr>))"

text \<open>
  \<open>[b for b in BOOKS_DATABASE if cond(b)]\<close> on the store: the list that the global is
  bound to is read, a new empty list is created, and for each element in order the
  condition is evaluated on the dictionary it refers to and the reference is appended
  to the new list when it holds. The new list holds references to the dictionaries of
  the collection, not copies.
\<close>

fun comprehension_loop ::
    "(pydict \<Rightarrow> error + bool) \<Rightarrow> addr \<Rightarrow> addr list \<Rightarrow> store \<Rightarrow> (error + unit) \<times> store" where
  "comprehension_loop cond res [] s = (Inr (), s)"
| "comprehension_loop cond res (a # as) s =
     (case read_dict s a of Inl e \<Rightarrow> (Inl e, s)
      | Inr d \<Rightarrow>
        (case cond d of Inl e \<Rightarrow> (Inl e, s)
         | Inr t \<Rightarrow>
           if t then
             (case list_append res a s of
                (Inl e, s') \<Rightarrow> (Inl e, s')
              | (Inr u, s') \<Rightarrow> comprehension_loop cond res as s')
           else comprehension_loop cond res as s))"

definition comprehension_on_store ::
    "(pydict \<Rightarrow> error + bool) \<Rightarrow> store \<Rightarrow> (error + addr) \<times> store" where
  "comprehension_on_store cond s =
     (case read_list s (books_global s) of Inl e \<Rightarrow> (Inl e, s)
      | Inr items \<Rightarrow>
        (case alloc (List_obj []) s of
           (res, s') \<Rightarrow>
             (case comprehension_loop cond res items s' of
                (Inl e, s'') \<Rightarrow> (Inl e, s'')
              | (Inr u, s'') \<Rightarrow> (Inr res, s''))))"

text \<open>
  The four tools as programs on the store. The output models are values: building one
  reads the records of the list \<open>books\<close>.
\<close>

definition books_list_on_store ::
    "(pydict \<Rightarrow> error + bool) \<Rightarrow> store \<Rightarrow> (error + BooksList) \<times> store" where
  "books_list_on_store cond s =
     (case comprehension_on_store cond s of
        (Inl e, s') \<Rightarrow> (Inl e, s')
      | (Inr l, s') \<Rightarrow>
        (case records_of s' l of Inl e \<Rightarrow> (Inl e, s')
         | Inr books' \<Rightarrow> (Inr \<lparr>books = books'\<rparr>, s')))"

definition average_on_store ::
    "builtin_sum \<Rightarrow> GenreInput \<Rightarrow> store \<Rightarrow> (error + AverageRatingResult) \<times> store" where
  "average_on_store alg params s =
     (case comprehension_on_store (genre_is (GenreInput.genre params)) s of
        (Inl e, s') \<Rightarrow> (Inl e, s')
      | (Inr l, s') \<Rightarrow>
        (case records_of s' l of Inl e \<Rightarrow> (Inl e, s')
         | Inr books' \<Rightarrow> (average_of alg (GenreInput.genre params) books', s')))"

text \<open>
  An invocation runs the tool that the call names on the store and returns its outcome
  with the store it leaves. A server run serves the calls one after the other, each on
  the store the one before left.
\<close>

fun invoke :: "builtin_sum \<Rightarrow> tool_call \<Rightarrow> store \<Rightarrow> (error + tool_output) \<times> store" where
  "invoke alg (Average_rating_by_genre params) s =
     (case average_on_store alg params s of (r, s') \<Rightarrow> (map_sum id Average r, s'))"
| "invoke alg (Books_by_genre params) s =
     (case books_list_on_store (genre_is (GenreInput.genre params)) s of
        (r, s') \<Rightarrow> (map_sum id Books r, s'))"
| "invoke alg (Books_by_rating_above params) s =
     (case books_list_on_store (rating_above (rating params)) s of
        (r, s') \<Rightarrow> (map_sum id Books r, s'))"
| "invoke alg (Books_by_year params) s =
     (case books_list_on_store (year_is (year params)) s of
        (r, s') \<Rightarrow> (map_sum id Books r, s'))"

fun serve ::
    "builtin_sum \<Rightarrow> tool_call list \<Rightarrow> store \<Rightarrow> (error + tool_output) list \<times> store" where
  "serve alg [] s = ([], s)"
| "serve alg (c # cs) s =
     (case invoke alg c s of (r, s') \<Rightarrow>
        (case serve alg cs s' of (rs, s'') \<Rightarrow> (r # rs, s'')))"

section \<open>What the specification says\<close>

text \<open>
  The selections of the specification: the records whose \<open>genre\<close> is a given string,
  whose \<open>rating\<close> is a float strictly above a threshold, whose \<open>year\<close> is a given
  integer.
\<close>

definition has_genre :: "string \<Rightarrow> pydict \<Rightarrow> bool" where
  "has_genre g b = (map_of b ''genre'' = Some (VStr g))"

definition rated_above :: "pyfloat \<Rightarrow> pydict \<Rightarrow> bool" where
  "rated_above r b =
     (case map_of b ''rating'' of Some (VFloat f) \<Rightarrow> float_lt r f | _ \<Rightarrow> False)"

definition has_year :: "int \<Rightarrow> pydict \<Rightarrow> bool" where
  "has_year y b = (map_of b ''year'' = Some (VInt y))"

text \<open>The float ratings of a list of records, in order.\<close>

fun rating_values :: "pydict list \<Rightarrow> pyfloat list" where
  "rating_values [] = []"
| "rating_values (b # bs) =
     (case map_of b ''rating'' of
        Some (VFloat f) \<Rightarrow> f # rating_values bs
      | _ \<Rightarrow> rating_values bs)"

text \<open>
  The sum of a list of floats as the interpreter's \<open>sum\<close> computes it: plainly, or with
  the compensation of the rounding errors.
\<close>

fun neumaier :: "pyfloat \<Rightarrow> pyfloat \<Rightarrow> pyfloat list \<Rightarrow> pyfloat" where
  "neumaier f c [] = compensate f c"
| "neumaier f c (x # xs) =
     (let t = float_add f x
      in neumaier t
           (float_add c
              (if float_le (float_abs x) (float_abs f) then float_add (float_sub f t) x
               else float_add (float_sub x t) f))
           xs)"

fun float_sum :: "builtin_sum \<Rightarrow> pyfloat list \<Rightarrow> pyfloat" where
  "float_sum Plain fs = foldl float_add (Finite 0) fs"
| "float_sum Compensated [] = Finite 0"
| "float_sum Compensated (x # xs) = neumaier (float_add (Finite 0) x) (Finite 0) xs"

text \<open>The arithmetic mean in floating point: the sum, divided by the count.\<close>

definition mean :: "builtin_sum \<Rightarrow> pyfloat list \<Rightarrow> pyfloat" where
  "mean alg fs = float_quot (float_sum alg fs) (Finite (of_nat (length fs)))"

text \<open>The data model of a record: the fields the tools read, with their types.\<close>

definition well_formed :: "pydict \<Rightarrow> bool" where
  "well_formed b \<longleftrightarrow>
     (\<exists>g y f. map_of b ''genre'' = Some (VStr g) \<and> map_of b ''year'' = Some (VInt y)
        \<and> map_of b ''rating'' = Some (VFloat f))"

definition positive_int_field :: "string \<Rightarrow> pydict \<Rightarrow> bool" where
  "positive_int_field k b = (case map_of b k of Some (VInt i) \<Rightarrow> 0 < i | _ \<Rightarrow> False)"

definition nonempty_text_field :: "string \<Rightarrow> pydict \<Rightarrow> bool" where
  "nonempty_text_field k b = (case map_of b k of Some (VStr s) \<Rightarrow> s \<noteq> [] | _ \<Rightarrow> False)"

section \<open>Facts about the float operations\<close>

lemma round64_0: "round64 0 = Finite 0"
  by (simp add: round64_def)

lemma float_lit_0: "float_lit 0 = Finite 0"
  by (simp add: float_lit_def round64_0)

lemma float_of_int_0: "float_of_int 0 = Inr (Finite 0)"
  by (simp add: float_of_int_def round64_0)

lemma float_of_int_upto_10: "\<forall>n\<in>set [1..10]. float_of_int n = Inr (Finite (of_int n))"
  by code_simp

lemma float_of_int_small:
  assumes "1 \<le> n" "n \<le> 10"
  shows "float_of_int n = Inr (Finite (of_int n))"
  using assms float_of_int_upto_10 by simp

lemma py_truediv_count:
  assumes "1 \<le> n" "n \<le> 10"
  shows "py_truediv (VFloat s) (VInt n) = Inr (float_quot s (Finite (of_int n)))"
  using assms by (simp add: py_truediv_def float_of_int_small float_truediv_def)

text \<open>The floats that the rating literals of the data denote.\<close>

lemma float_lits:
  "float_lit 4.2 = Finite (4728779608739021 / 1125899906842624)"
  "float_lit 4.3 = Finite (4841369599423283 / 1125899906842624)"
  "float_lit 4.4 = Finite (2476979795053773 / 562949953421312)"
  "float_lit 4.5 = Finite (9 / 2)"
  "float_lit 4.6 = Finite (2589569785738035 / 562949953421312)"
  "float_lit 4.7 = Finite (5291729562160333 / 1125899906842624)"
  "float_lit 4.8 = Finite (5404319552844595 / 1125899906842624)"
  "float_lit 4.9 = Finite (2758454771764429 / 562949953421312)"
  by code_simp+

section \<open>Comprehensions over well-formed records\<close>

lemma comprehension_filter:
  "(\<forall>b\<in>set db. cond b = Inr (P b)) \<Longrightarrow> comprehension cond db = Inr (filter P db)"
  by (induction db) auto

lemma genre_is_wf: "well_formed b \<Longrightarrow> genre_is g b = Inr (has_genre g b)"
  by (cases "map_of b ''genre''")
     (auto simp: well_formed_def genre_is_def getitem_def has_genre_def)

lemma year_is_wf: "well_formed b \<Longrightarrow> year_is y b = Inr (has_year y b)"
  by (auto simp: well_formed_def year_is_def getitem_def has_year_def)

lemma rating_above_wf: "well_formed b \<Longrightarrow> rating_above r b = Inr (rated_above r b)"
  by (auto simp: well_formed_def rating_above_def getitem_def py_gt_float_def rated_above_def)

lemma rating_values_length:
  "\<forall>b\<in>set bs. well_formed b \<Longrightarrow> length (rating_values bs) = length bs"
  by (induction bs) (auto simp: well_formed_def)

lemma rating_values_map:
  "\<forall>b\<in>set bs. well_formed b \<Longrightarrow>
   map (\<lambda>b. map_of b ''rating'') bs = map (\<lambda>f. Some (VFloat f)) (rating_values bs)"
  by (induction bs) (auto simp: well_formed_def)

text \<open>The sum of the ratings of well-formed records, for both ways of summing.\<close>

lemma sum_ratings_plain:
  "\<forall>b\<in>set bs. well_formed b \<Longrightarrow>
   sum_ratings (Obj_acc (VFloat x)) bs = Inr (VFloat (foldl float_add x (rating_values bs)))"
  by (induction bs arbitrary: x) (auto simp: well_formed_def getitem_def sum_generic_def)

lemma sum_ratings_compensated:
  "\<forall>b\<in>set bs. well_formed b \<Longrightarrow>
   sum_ratings (Float_acc f c) bs = Inr (VFloat (neumaier f c (rating_values bs)))"
  by (induction bs arbitrary: f c) (auto simp: well_formed_def getitem_def Let_def)

lemma sum_ratings_start:
  assumes "\<forall>b\<in>set bs. well_formed b" "bs \<noteq> []"
  shows "sum_ratings (sum_start alg) bs = Inr (VFloat (float_sum alg (rating_values bs)))"
proof (cases bs)
  case Nil
  with assms show ?thesis by simp
next
  case (Cons b bs')
  with assms obtain x where x: "map_of b ''rating'' = Some (VFloat x)"
    by (auto simp: well_formed_def)
  from Cons assms have wf: "\<forall>b\<in>set bs'. well_formed b" by simp
  show ?thesis
  proof (cases alg)
    case Plain
    with sum_ratings_plain [OF wf] Cons x show ?thesis
      by (simp add: sum_start_def getitem_def sum_generic_def float_of_int_0)
  next
    case Compensated
    with sum_ratings_compensated [OF wf] Cons x show ?thesis
      by (simp add: sum_start_def getitem_def sum_generic_def float_of_int_0)
  qed
qed

lemma average_of_general:
  assumes wf: "\<forall>b\<in>set bs. well_formed b" and len: "length bs \<le> 10"
  shows "average_of alg g bs =
    Inr \<lparr>average_rating = (if bs = [] then Finite 0 else mean alg (rating_values bs)),
         genre = g\<rparr>"
proof (cases "bs = []")
  case True
  then show ?thesis by (simp add: average_of_def float_lit_0)
next
  case False
  then have "0 < length bs" by simp
  with len have n: "1 \<le> int (length bs)" "int (length bs) \<le> 10"
    by linarith+
  from False sum_ratings_start [OF wf False, of alg] py_truediv_count [OF n] show ?thesis
    by (simp add: average_of_def mean_def rating_values_length [OF wf])
qed

lemma average_general:
  assumes wf: "\<forall>b\<in>set db. well_formed b" and len: "length db \<le> 10"
  shows "get_average_rating_by_genre alg db params =
    Inr \<lparr>average_rating =
           (if filter (has_genre (GenreInput.genre params)) db = [] then Finite 0
            else mean alg (rating_values (filter (has_genre (GenreInput.genre params)) db))),
         genre = GenreInput.genre params\<rparr>"
proof -
  let ?g = "GenreInput.genre params"
  let ?m = "filter (has_genre ?g) db"
  have c: "comprehension (genre_is ?g) db = Inr ?m"
    by (rule comprehension_filter) (simp add: wf genre_is_wf)
  have wfm: "\<forall>b\<in>set ?m. well_formed b" using wf by simp
  have "length ?m \<le> 10" by (rule le_trans [OF length_filter_le len])
  from average_of_general [OF wfm this] c show ?thesis
    by (simp add: get_average_rating_by_genre_def)
qed

lemma books_by_genre_general:
  assumes "\<forall>b\<in>set db. well_formed b"
  shows "get_books_by_genre db params =
           Inr \<lparr>books = filter (has_genre (GenreInput.genre params)) db\<rparr>"
proof -
  have "comprehension (genre_is (GenreInput.genre params)) db =
          Inr (filter (has_genre (GenreInput.genre params)) db)"
    by (rule comprehension_filter) (simp add: assms genre_is_wf)
  then show ?thesis by (simp add: get_books_by_genre_def)
qed

lemma books_by_rating_general:
  assumes "\<forall>b\<in>set db. well_formed b"
  shows "get_books_by_rating_above db params =
           Inr \<lparr>books = filter (rated_above (rating params)) db\<rparr>"
proof -
  have "comprehension (rating_above (rating params)) db =
          Inr (filter (rated_above (rating params)) db)"
    by (rule comprehension_filter) (simp add: assms rating_above_wf)
  then show ?thesis by (simp add: get_books_by_rating_above_def)
qed

lemma books_by_year_general:
  assumes "\<forall>b\<in>set db. well_formed b"
  shows "get_books_by_year db params = Inr \<lparr>books = filter (has_year (year params)) db\<rparr>"
proof -
  have "comprehension (year_is (year params)) db = Inr (filter (has_year (year params)) db)"
    by (rule comprehension_filter) (simp add: assms year_is_wf)
  then show ?thesis by (simp add: get_books_by_year_def)
qed

section \<open>Facts about the data\<close>

lemma db_length: "length BOOKS_DATABASE = 10"
  by (simp add: BOOKS_DATABASE_def)

lemma db_well_formed: "\<forall>b\<in>set BOOKS_DATABASE. well_formed b"
  by (simp add: BOOKS_DATABASE_def well_formed_def)

lemma db_distinct: "distinct BOOKS_DATABASE"
  by (simp add: BOOKS_DATABASE_def)

lemma db_ratings_finite:
  "\<forall>b\<in>set BOOKS_DATABASE.
     case map_of b ''rating'' of Some (VFloat (Finite q)) \<Rightarrow> True | _ \<Rightarrow> False"
  unfolding BOOKS_DATABASE_def by (simp only: float_lits) simp

lemma db_fantasy:
  "filter (has_genre ''Fantasy'') BOOKS_DATABASE = [BOOKS_DATABASE ! 6, BOOKS_DATABASE ! 9]"
  by (simp add: BOOKS_DATABASE_def has_genre_def)

lemma db_fantasy_lowercase: "filter (has_genre ''fantasy'') BOOKS_DATABASE = []"
  by (simp add: BOOKS_DATABASE_def has_genre_def)

lemma db_poetry_absent: "\<forall>b\<in>set BOOKS_DATABASE. \<not> has_genre ''Poetry'' b"
  by (simp add: BOOKS_DATABASE_def has_genre_def)

lemma db_above_48:
  "filter (rated_above (float_lit 4.8)) BOOKS_DATABASE = [BOOKS_DATABASE ! 6, BOOKS_DATABASE ! 9]"
  unfolding BOOKS_DATABASE_def by (simp only: float_lits) (simp add: rated_above_def)

lemma db_above_49: "filter (rated_above (float_lit 4.9)) BOOKS_DATABASE = []"
  unfolding BOOKS_DATABASE_def by (simp only: float_lits) (simp add: rated_above_def)

lemma db_rated_49:
  "filter (\<lambda>b. map_of b ''rating'' = Some (VFloat (float_lit 4.9))) BOOKS_DATABASE =
     [BOOKS_DATABASE ! 6, BOOKS_DATABASE ! 9]"
  unfolding BOOKS_DATABASE_def by (simp only: float_lits) simp

lemma db_titles:
  "map_of (BOOKS_DATABASE ! 2) ''title'' = Some (VStr ''1984'')"
  "map_of (BOOKS_DATABASE ! 6) ''title'' = Some (VStr ''The Hobbit'')"
  "map_of (BOOKS_DATABASE ! 9) ''title'' = Some (VStr ''The Lord of the Rings'')"
  by (simp_all add: BOOKS_DATABASE_def)

lemma db_year_1949: "filter (has_year 1949) BOOKS_DATABASE = [BOOKS_DATABASE ! 2]"
  by (simp add: BOOKS_DATABASE_def has_year_def)

lemma db_year_2000: "filter (has_year 2000) BOOKS_DATABASE = []"
  by (simp add: BOOKS_DATABASE_def has_year_def)

lemma db_ids:
  "list_all (positive_int_field ''id'') BOOKS_DATABASE"
  "distinct (map (\<lambda>b. map_of b ''id'') BOOKS_DATABASE)"
  by (simp_all add: BOOKS_DATABASE_def positive_int_field_def)

lemma db_texts:
  "list_all (nonempty_text_field ''title'') BOOKS_DATABASE"
  "list_all (nonempty_text_field ''author'') BOOKS_DATABASE"
  "list_all (nonempty_text_field ''genre'') BOOKS_DATABASE"
  "list_all (nonempty_text_field ''isbn'') BOOKS_DATABASE"
  by (simp_all add: BOOKS_DATABASE_def nonempty_text_field_def)

lemma db_rating_finite:
  assumes "b \<in> set BOOKS_DATABASE"
  shows "\<exists>q. map_of b ''rating'' = Some (VFloat (Finite q))"
proof -
  from db_ratings_finite assms
  have "case map_of b ''rating'' of Some (VFloat (Finite q)) \<Rightarrow> True | _ \<Rightarrow> False"
    by blast
  then show ?thesis
    by (auto split: option.splits pyval.splits pyfloat.splits)
qed

section \<open>The store\<close>

lemma read_dict_at:
  assumes "a < length h0" "h0 ! a = Dict_obj d" "heap s = h0 @ new"
  shows "read_dict s a = Inr d"
  using assms by (simp add: read_dict_def nth_append)

lemma read_dicts_at:
  assumes "heap s = h0 @ new"
  shows "\<forall>a\<in>set as. a < length h0 \<Longrightarrow> map ((!) h0) as = map Dict_obj ds \<Longrightarrow>
         read_dicts s as = Inr ds"
proof (induction as arbitrary: ds)
  case Nil
  then show ?case by simp
next
  case (Cons a as)
  from Cons.prems obtain d ds' where ds: "ds = d # ds'" and d: "h0 ! a = Dict_obj d"
    and rest: "map ((!) h0) as = map Dict_obj ds'"
    by (cases ds) auto
  from Cons.prems have a: "a < length h0" and as: "\<forall>a\<in>set as. a < length h0"
    by simp_all
  from read_dict_at [OF a d assms] Cons.IH [OF as rest] ds show ?case
    by simp
qed

lemma read_dict_Inr:
  assumes "read_dict s a = Inr d"
  shows "a < length (heap s) \<and> heap s ! a = Dict_obj d"
  using assms by (auto simp: read_dict_def split: if_splits obj.splits)

lemma read_dicts_Inr:
  "read_dicts s as = Inr ds \<Longrightarrow>
   (\<forall>a\<in>set as. a < length (heap s)) \<and> map ((!) (heap s)) as = map Dict_obj ds"
proof (induction as arbitrary: ds)
  case Nil
  then show ?case by simp
next
  case (Cons a as)
  from Cons.prems obtain d ds' where d: "read_dict s a = Inr d"
    and r: "read_dicts s as = Inr ds'" and ds: "ds = d # ds'"
    by (auto split: sum.splits)
  from read_dict_Inr [OF d] Cons.IH [OF r] ds show ?case by simp
qed

lemma list_append_fresh:
  assumes "heap s = h0 @ [List_obj xs]"
  shows "list_append (length h0) a s = (Inr (), s\<lparr>heap := h0 @ [List_obj (xs @ [a])]\<rparr>)"
  using assms by (simp add: list_append_def read_list_def)

text \<open>
  The loop writes to the list it fills and to nothing else, whatever the condition and the
  references it is given.
\<close>

lemma comprehension_loop_frame:
  "heap s = h0 @ [List_obj xs] \<Longrightarrow>
   \<exists>ys. snd (comprehension_loop cond (length h0) as s) = s\<lparr>heap := h0 @ [List_obj ys]\<rparr>"
proof (induction as arbitrary: s xs)
  case Nil
  then have "s = s\<lparr>heap := h0 @ [List_obj xs]\<rparr>" by simp
  then show ?case by auto
next
  case (Cons a as)
  from Cons.prems have same: "s = s\<lparr>heap := h0 @ [List_obj xs]\<rparr>" by simp
  show ?case
  proof (cases "read_dict s a")
    case (Inl e)
    with same show ?thesis by auto
  next
    case (Inr d)
    show ?thesis
    proof (cases "cond d")
      case (Inl e)
      with Inr same show ?thesis by auto
    next
      case t: (Inr t)
      show ?thesis
      proof (cases t)
        case False
        from Cons.IH [OF Cons.prems] Inr t False show ?thesis by simp
      next
        case True
        let ?s' = "s\<lparr>heap := h0 @ [List_obj (xs @ [a])]\<rparr>"
        have "heap ?s' = h0 @ [List_obj (xs @ [a])]" by simp
        from Cons.IH [OF this] obtain ys where
          "snd (comprehension_loop cond (length h0) as ?s') = ?s'\<lparr>heap := h0 @ [List_obj ys]\<rparr>"
          by blast
        with Inr t True list_append_fresh [OF Cons.prems] show ?thesis by simp blast
      qed
    qed
  qed
qed

text \<open>
  On references to dictionaries the loop computes the comprehension on their values: the
  references it appends are those of the selected records, in order.
\<close>

lemma comprehension_loop_spec:
  "heap s = h0 @ [List_obj xs] \<Longrightarrow> \<forall>a\<in>set as. a < length h0 \<Longrightarrow>
   map ((!) h0) as = map Dict_obj ds \<Longrightarrow>
   \<exists>ys. comprehension_loop cond (length h0) as s =
          (map_sum id (\<lambda>r. ()) (comprehension cond ds), s\<lparr>heap := h0 @ [List_obj (xs @ ys)]\<rparr>)
      \<and> (\<forall>a\<in>set ys. a < length h0)
      \<and> (\<forall>bs. comprehension cond ds = Inr bs \<longrightarrow> map ((!) h0) ys = map Dict_obj bs)"
proof (induction as arbitrary: s xs ds)
  case Nil
  then have "s = s\<lparr>heap := h0 @ [List_obj (xs @ [])]\<rparr>" by simp
  with Nil show ?case by (intro exI [of _ "[]"]) auto
next
  case (Cons a as)
  from Cons.prems obtain d ds' where ds: "ds = d # ds'" and d: "h0 ! a = Dict_obj d"
    and rest: "map ((!) h0) as = map Dict_obj ds'"
    by (cases ds) auto
  from Cons.prems have a: "a < length h0" and as: "\<forall>a\<in>set as. a < length h0"
    by simp_all
  have rd: "read_dict s a = Inr d"
    by (rule read_dict_at [OF a d Cons.prems(1)])
  have same: "s = s\<lparr>heap := h0 @ [List_obj (xs @ [])]\<rparr>"
    using Cons.prems(1) by simp
  show ?case
  proof (cases "cond d")
    case (Inl e)
    with rd ds same show ?thesis by (intro exI [of _ "[]"]) auto
  next
    case t: (Inr t)
    show ?thesis
    proof (cases t)
      case False
      from Cons.IH [OF Cons.prems(1) as rest] obtain ys where
        ys: "comprehension_loop cond (length h0) as s =
          (map_sum id (\<lambda>r. ()) (comprehension cond ds'), s\<lparr>heap := h0 @ [List_obj (xs @ ys)]\<rparr>)"
        "\<forall>a\<in>set ys. a < length h0"
        "\<forall>bs. comprehension cond ds' = Inr bs \<longrightarrow> map ((!) h0) ys = map Dict_obj bs"
        by blast
      with rd t False ds show ?thesis
        by (intro exI [of _ ys]) (auto split: sum.splits)
    next
      case True
      let ?s' = "s\<lparr>heap := h0 @ [List_obj (xs @ [a])]\<rparr>"
      have h: "heap ?s' = h0 @ [List_obj (xs @ [a])]" by simp
      from Cons.IH [OF h as rest] obtain ys where
        ys: "comprehension_loop cond (length h0) as ?s' =
          (map_sum id (\<lambda>r. ()) (comprehension cond ds'),
           ?s'\<lparr>heap := h0 @ [List_obj ((xs @ [a]) @ ys)]\<rparr>)"
        "\<forall>a\<in>set ys. a < length h0"
        "\<forall>bs. comprehension cond ds' = Inr bs \<longrightarrow> map ((!) h0) ys = map Dict_obj bs"
        by blast
      with rd t True ds a d list_append_fresh [OF Cons.prems(1)] show ?thesis
        by (intro exI [of _ "a # ys"]) (auto split: sum.splits)
    qed
  qed
qed

lemma comprehension_on_store_frame:
  "\<exists>new. snd (comprehension_on_store cond s) = s\<lparr>heap := heap s @ new\<rparr>"
proof (cases "read_list s (books_global s)")
  case (Inl e)
  then have "snd (comprehension_on_store cond s) = s\<lparr>heap := heap s @ []\<rparr>"
    by (simp add: comprehension_on_store_def)
  then show ?thesis by blast
next
  case (Inr items)
  let ?s' = "s\<lparr>heap := heap s @ [List_obj []]\<rparr>"
  have "heap ?s' = heap s @ [List_obj []]" by simp
  from comprehension_loop_frame [OF this, of cond items] obtain ys where
    "snd (comprehension_loop cond (length (heap s)) items ?s') =
       ?s'\<lparr>heap := heap s @ [List_obj ys]\<rparr>"
    by blast
  with Inr have "snd (comprehension_on_store cond s) = s\<lparr>heap := heap s @ [List_obj ys]\<rparr>"
    by (auto simp: comprehension_on_store_def alloc_def split: prod.splits sum.splits)
  then show ?thesis by blast
qed

lemma comprehension_on_store_spec:
  assumes "collection s = Inr db"
  shows "\<exists>ys. comprehension_on_store cond s =
           (map_sum id (\<lambda>r. length (heap s)) (comprehension cond db),
            s\<lparr>heap := heap s @ [List_obj ys]\<rparr>)
       \<and> (\<forall>bs. comprehension cond db = Inr bs \<longrightarrow>
            records_of (s\<lparr>heap := heap s @ [List_obj ys]\<rparr>) (length (heap s)) = Inr bs)"
proof -
  from assms obtain items where items: "read_list s (books_global s) = Inr items"
    and ds: "read_dicts s items = Inr db"
    by (auto simp: collection_def records_of_def split: sum.splits)
  let ?h = "heap s"
  let ?s' = "s\<lparr>heap := ?h @ [List_obj []]\<rparr>"
  from read_dicts_Inr [OF ds] have lt: "\<forall>a\<in>set items. a < length ?h"
    and vals: "map ((!) ?h) items = map Dict_obj db"
    by simp_all
  have "heap ?s' = ?h @ [List_obj []]" by simp
  from comprehension_loop_spec [OF this lt vals, of cond] obtain ys where
    loop: "comprehension_loop cond (length ?h) items ?s' =
      (map_sum id (\<lambda>r. ()) (comprehension cond db), ?s'\<lparr>heap := ?h @ [List_obj ([] @ ys)]\<rparr>)"
    and ys: "\<forall>a\<in>set ys. a < length ?h"
    and sel: "\<forall>bs. comprehension cond db = Inr bs \<longrightarrow> map ((!) ?h) ys = map Dict_obj bs"
    by blast
  let ?s'' = "s\<lparr>heap := ?h @ [List_obj ys]\<rparr>"
  from items loop have run: "comprehension_on_store cond s =
      (map_sum id (\<lambda>r. length ?h) (comprehension cond db), ?s'')"
    by (cases "comprehension cond db") (simp_all add: comprehension_on_store_def alloc_def)
  have "records_of ?s'' (length ?h) = Inr bs" if "comprehension cond db = Inr bs" for bs
  proof -
    have h: "heap ?s'' = ?h @ [List_obj ys]" by simp
    from sel that have "map ((!) ?h) ys = map Dict_obj bs" by blast
    from read_dicts_at [OF h ys this] show ?thesis
      by (simp add: records_of_def read_list_def)
  qed
  with run show ?thesis by blast
qed

lemma collection_extended:
  assumes "collection s = Inr db"
  shows "collection (s\<lparr>heap := heap s @ new\<rparr>) = Inr db"
proof -
  from assms obtain items where items: "read_list s (books_global s) = Inr items"
    and ds: "read_dicts s items = Inr db"
    by (auto simp: collection_def records_of_def split: sum.splits)
  let ?s' = "s\<lparr>heap := heap s @ new\<rparr>"
  from items have "read_list ?s' (books_global ?s') = Inr items"
    by (auto simp: read_list_def nth_append split: if_splits)
  moreover have "heap ?s' = heap s @ new" by simp
  from read_dicts_Inr [OF ds] read_dicts_at [OF this]
  have "read_dicts ?s' items = Inr db" by blast
  ultimately show ?thesis by (simp add: collection_def records_of_def)
qed

text \<open>Each tool on the store computes the tool on the records of the collection.\<close>

lemma books_list_on_store_spec:
  assumes "collection s = Inr db"
  shows "fst (books_list_on_store cond s) =
           map_sum id (\<lambda>bs. \<lparr>books = bs\<rparr>) (comprehension cond db)"
proof -
  from comprehension_on_store_spec [OF assms, of cond] obtain ys where
    run: "comprehension_on_store cond s =
      (map_sum id (\<lambda>r. length (heap s)) (comprehension cond db),
       s\<lparr>heap := heap s @ [List_obj ys]\<rparr>)"
    and recs: "\<forall>bs. comprehension cond db = Inr bs \<longrightarrow>
      records_of (s\<lparr>heap := heap s @ [List_obj ys]\<rparr>) (length (heap s)) = Inr bs"
    by blast
  then show ?thesis
    by (cases "comprehension cond db") (simp_all add: books_list_on_store_def)
qed

lemma average_on_store_spec:
  assumes "collection s = Inr db"
  shows "fst (average_on_store alg params s) = get_average_rating_by_genre alg db params"
proof -
  let ?cond = "genre_is (GenreInput.genre params)"
  from comprehension_on_store_spec [OF assms, of ?cond] obtain ys where
    run: "comprehension_on_store ?cond s =
      (map_sum id (\<lambda>r. length (heap s)) (comprehension ?cond db),
       s\<lparr>heap := heap s @ [List_obj ys]\<rparr>)"
    and recs: "\<forall>bs. comprehension ?cond db = Inr bs \<longrightarrow>
      records_of (s\<lparr>heap := heap s @ [List_obj ys]\<rparr>) (length (heap s)) = Inr bs"
    by blast
  then show ?thesis
    by (cases "comprehension ?cond db")
       (simp_all add: average_on_store_def get_average_rating_by_genre_def)
qed

lemma books_list_on_store_frame:
  "\<exists>new. snd (books_list_on_store cond s) = s\<lparr>heap := heap s @ new\<rparr>"
  using comprehension_on_store_frame [of cond s]
  by (auto simp: books_list_on_store_def split: prod.splits sum.splits)

lemma average_on_store_frame:
  "\<exists>new. snd (average_on_store alg params s) = s\<lparr>heap := heap s @ new\<rparr>"
  using comprehension_on_store_frame [of "genre_is (GenreInput.genre params)" s]
  by (auto simp: average_on_store_def split: prod.splits sum.splits)

lemma invoke_frame: "\<exists>new. snd (invoke alg c s) = s\<lparr>heap := heap s @ new\<rparr>"
proof (cases c)
  case (Average_rating_by_genre params)
  with average_on_store_frame [of alg params s] show ?thesis
    by (auto split: prod.splits)
next
  case (Books_by_genre params)
  with books_list_on_store_frame [of "genre_is (GenreInput.genre params)" s] show ?thesis
    by (auto split: prod.splits)
next
  case (Books_by_rating_above params)
  with books_list_on_store_frame [of "rating_above (rating params)" s] show ?thesis
    by (auto split: prod.splits)
next
  case (Books_by_year params)
  with books_list_on_store_frame [of "year_is (year params)" s] show ?thesis
    by (auto split: prod.splits)
qed

lemma case_sum_map:
  "(case x of Inl e \<Rightarrow> Inl e | Inr b \<Rightarrow> Inr (f b)) = map_sum id f x"
  by (cases x) simp_all

lemma invoke_output:
  assumes "collection s = Inr db"
  shows "fst (invoke alg c s) = run_tool alg c db"
proof (cases c)
  case (Average_rating_by_genre params)
  with average_on_store_spec [OF assms, of alg params] show ?thesis
    by (simp add: split_beta)
next
  case (Books_by_genre params)
  with books_list_on_store_spec [OF assms, of "genre_is (GenreInput.genre params)"]
  show ?thesis
    by (simp add: split_beta get_books_by_genre_def case_sum_map)
next
  case (Books_by_rating_above params)
  with books_list_on_store_spec [OF assms, of "rating_above (rating params)"]
  show ?thesis
    by (simp add: split_beta get_books_by_rating_above_def case_sum_map)
next
  case (Books_by_year params)
  with books_list_on_store_spec [OF assms, of "year_is (year params)"]
  show ?thesis
    by (simp add: split_beta get_books_by_year_def case_sum_map)
qed

lemma invoke_collection:
  assumes "collection s = Inr db"
  shows "collection (snd (invoke alg c s)) = Inr db"
proof -
  from invoke_frame [of alg c s] obtain new where
    "snd (invoke alg c s) = s\<lparr>heap := heap s @ new\<rparr>"
    by blast
  with collection_extended [OF assms, of new] show ?thesis by simp
qed

lemma serve_frame: "\<exists>new. snd (serve alg cs s) = s\<lparr>heap := heap s @ new\<rparr>"
proof (induction cs arbitrary: s)
  case Nil
  have "snd (serve alg [] s) = s\<lparr>heap := heap s @ []\<rparr>" by simp
  then show ?case by blast
next
  case (Cons c cs)
  from invoke_frame [of alg c s] obtain n1 where
    n1: "snd (invoke alg c s) = s\<lparr>heap := heap s @ n1\<rparr>"
    by blast
  from Cons [of "snd (invoke alg c s)"] n1 obtain n2 where
    "snd (serve alg cs (snd (invoke alg c s))) = s\<lparr>heap := heap s @ (n1 @ n2)\<rparr>"
    by auto
  then have "snd (serve alg (c # cs) s) = s\<lparr>heap := heap s @ (n1 @ n2)\<rparr>"
    by (simp add: split_beta)
  then show ?case by blast
qed

lemma serve_spec:
  "collection s = Inr db \<Longrightarrow>
   fst (serve alg cs s) = map (\<lambda>c. run_tool alg c db) cs
   \<and> collection (snd (serve alg cs s)) = Inr db"
proof (induction cs arbitrary: s)
  case Nil
  then show ?case by simp
next
  case (Cons c cs)
  from Cons.IH [OF invoke_collection [OF Cons.prems, of alg c]] invoke_output [OF Cons.prems]
  show ?case by (simp add: split_beta)
qed

lemma collection_initial: "collection initial_store = Inr BOOKS_DATABASE"
proof -
  let ?h = "map Dict_obj BOOKS_DATABASE"
  have h: "heap initial_store = ?h @ [List_obj [0..<length BOOKS_DATABASE]]"
    by (simp add: initial_store_def)
  have "map ((!) ?h) [0..<length BOOKS_DATABASE] = map Dict_obj BOOKS_DATABASE"
    by (rule nth_equalityI) simp_all
  moreover have "\<forall>a\<in>set [0..<length BOOKS_DATABASE]. a < length ?h"
    by simp
  ultimately have "read_dicts initial_store [0..<length BOOKS_DATABASE] = Inr BOOKS_DATABASE"
    using read_dicts_at [OF h] by blast
  then show ?thesis
    by (simp add: collection_def records_of_def read_list_def initial_store_def nth_append)
qed

section \<open>Averages on the data\<close>

lemma db_genres:
  "filter (has_genre ''Classic Fiction'') BOOKS_DATABASE =
     [BOOKS_DATABASE ! 0, BOOKS_DATABASE ! 1, BOOKS_DATABASE ! 4]"
  "filter (has_genre ''Dystopian Fiction'') BOOKS_DATABASE =
     [BOOKS_DATABASE ! 2, BOOKS_DATABASE ! 5, BOOKS_DATABASE ! 7]"
  "filter (has_genre ''Romance'') BOOKS_DATABASE = [BOOKS_DATABASE ! 3]"
  "filter (has_genre ''Fantasy'') BOOKS_DATABASE = [BOOKS_DATABASE ! 6, BOOKS_DATABASE ! 9]"
  "filter (has_genre ''Science Fiction'') BOOKS_DATABASE = [BOOKS_DATABASE ! 8]"
  by (simp_all add: BOOKS_DATABASE_def has_genre_def)

lemma db_genre_ratings:
  "rating_values [BOOKS_DATABASE ! 0, BOOKS_DATABASE ! 1, BOOKS_DATABASE ! 4] =
     [Finite (9 / 2), Finite (5404319552844595 / 1125899906842624),
      Finite (4728779608739021 / 1125899906842624)]"
  "rating_values [BOOKS_DATABASE ! 2, BOOKS_DATABASE ! 5, BOOKS_DATABASE ! 7] =
     [Finite (5291729562160333 / 1125899906842624), Finite (2476979795053773 / 562949953421312),
      Finite (4841369599423283 / 1125899906842624)]"
  "rating_values [BOOKS_DATABASE ! 3] = [Finite (2589569785738035 / 562949953421312)]"
  "rating_values [BOOKS_DATABASE ! 6, BOOKS_DATABASE ! 9] =
     [Finite (2758454771764429 / 562949953421312), Finite (2758454771764429 / 562949953421312)]"
  "rating_values [BOOKS_DATABASE ! 8] = [Finite (5291729562160333 / 1125899906842624)]"
  unfolding BOOKS_DATABASE_def by (simp_all only: float_lits) simp_all

lemma mean_classic:
  "mean alg [Finite (9 / 2), Finite (5404319552844595 / 1125899906842624),
     Finite (4728779608739021 / 1125899906842624)] = Finite (9 / 2)"
  by (cases alg; hypsubst; code_simp)

lemma mean_dystopian_plain:
  "mean Plain [Finite (5291729562160333 / 1125899906842624),
     Finite (2476979795053773 / 562949953421312), Finite (4841369599423283 / 1125899906842624)] =
   Finite (5029019583897055 / 1125899906842624)"
  by code_simp

lemma mean_dystopian_compensated:
  "mean Compensated [Finite (5291729562160333 / 1125899906842624),
     Finite (2476979795053773 / 562949953421312), Finite (4841369599423283 / 1125899906842624)] =
   Finite (2514509791948527 / 562949953421312)"
  by code_simp

lemma mean_romance:
  "mean alg [Finite (2589569785738035 / 562949953421312)] =
   Finite (2589569785738035 / 562949953421312)"
  by (cases alg; hypsubst; code_simp)

lemma mean_fantasy:
  "mean alg [Finite (2758454771764429 / 562949953421312),
     Finite (2758454771764429 / 562949953421312)] = Finite (2758454771764429 / 562949953421312)"
  by (cases alg; hypsubst; code_simp)

lemma mean_science:
  "mean alg [Finite (5291729562160333 / 1125899906842624)] =
   Finite (5291729562160333 / 1125899906842624)"
  by (cases alg; hypsubst; code_simp)

lemma average_on_data:
  assumes "filter (has_genre g) BOOKS_DATABASE = m" "m \<noteq> []" "rating_values m = fs"
    "mean alg fs = v"
  shows "get_average_rating_by_genre alg BOOKS_DATABASE \<lparr>GenreInput.genre = g\<rparr> =
           Inr \<lparr>average_rating = v, genre = g\<rparr>"
proof -
  have len: "length BOOKS_DATABASE \<le> 10"
    by (simp add: db_length)
  from average_general [OF db_well_formed len, of alg "\<lparr>GenreInput.genre = g\<rparr>"] assms
  show ?thesis by simp
qed

lemma db_averages:
  "map (\<lambda>g. get_average_rating_by_genre Plain BOOKS_DATABASE \<lparr>GenreInput.genre = g\<rparr>)
     [''Classic Fiction'', ''Dystopian Fiction'', ''Romance'', ''Fantasy'', ''Science Fiction''] =
   [Inr \<lparr>average_rating = float_lit 4.5, genre = ''Classic Fiction''\<rparr>,
    Inr \<lparr>average_rating = Finite (5029019583897055 / 1125899906842624),
         genre = ''Dystopian Fiction''\<rparr>,
    Inr \<lparr>average_rating = float_lit 4.6, genre = ''Romance''\<rparr>,
    Inr \<lparr>average_rating = float_lit 4.9, genre = ''Fantasy''\<rparr>,
    Inr \<lparr>average_rating = float_lit 4.7, genre = ''Science Fiction''\<rparr>]"
  "map (\<lambda>g. get_average_rating_by_genre Compensated BOOKS_DATABASE \<lparr>GenreInput.genre = g\<rparr>)
     [''Classic Fiction'', ''Dystopian Fiction'', ''Romance'', ''Fantasy'', ''Science Fiction''] =
   [Inr \<lparr>average_rating = float_lit 4.5, genre = ''Classic Fiction''\<rparr>,
    Inr \<lparr>average_rating = Finite (2514509791948527 / 562949953421312),
         genre = ''Dystopian Fiction''\<rparr>,
    Inr \<lparr>average_rating = float_lit 4.6, genre = ''Romance''\<rparr>,
    Inr \<lparr>average_rating = float_lit 4.9, genre = ''Fantasy''\<rparr>,
    Inr \<lparr>average_rating = float_lit 4.7, genre = ''Science Fiction''\<rparr>]"
proof -
  note c = average_on_data [OF db_genres(1) _ db_genre_ratings(1) mean_classic, simplified]
  note dp = average_on_data [OF db_genres(2) _ db_genre_ratings(2) mean_dystopian_plain,
      simplified]
  note dc = average_on_data [OF db_genres(2) _ db_genre_ratings(2) mean_dystopian_compensated,
      simplified]
  note r = average_on_data [OF db_genres(3) _ db_genre_ratings(3) mean_romance, simplified]
  note f = average_on_data [OF db_genres(4) _ db_genre_ratings(4) mean_fantasy, simplified]
  note s = average_on_data [OF db_genres(5) _ db_genre_ratings(5) mean_science, simplified]
  show "map (\<lambda>g. get_average_rating_by_genre Plain BOOKS_DATABASE \<lparr>GenreInput.genre = g\<rparr>)
     [''Classic Fiction'', ''Dystopian Fiction'', ''Romance'', ''Fantasy'', ''Science Fiction''] =
   [Inr \<lparr>average_rating = float_lit 4.5, genre = ''Classic Fiction''\<rparr>,
    Inr \<lparr>average_rating = Finite (5029019583897055 / 1125899906842624),
         genre = ''Dystopian Fiction''\<rparr>,
    Inr \<lparr>average_rating = float_lit 4.6, genre = ''Romance''\<rparr>,
    Inr \<lparr>average_rating = float_lit 4.9, genre = ''Fantasy''\<rparr>,
    Inr \<lparr>average_rating = float_lit 4.7, genre = ''Science Fiction''\<rparr>]"
    unfolding float_lits by (simp only: list.map c dp r f s)
  show "map (\<lambda>g. get_average_rating_by_genre Compensated BOOKS_DATABASE \<lparr>GenreInput.genre = g\<rparr>)
     [''Classic Fiction'', ''Dystopian Fiction'', ''Romance'', ''Fantasy'', ''Science Fiction''] =
   [Inr \<lparr>average_rating = float_lit 4.5, genre = ''Classic Fiction''\<rparr>,
    Inr \<lparr>average_rating = Finite (2514509791948527 / 562949953421312),
         genre = ''Dystopian Fiction''\<rparr>,
    Inr \<lparr>average_rating = float_lit 4.6, genre = ''Romance''\<rparr>,
    Inr \<lparr>average_rating = float_lit 4.9, genre = ''Fantasy''\<rparr>,
    Inr \<lparr>average_rating = float_lit 4.7, genre = ''Science Fiction''\<rparr>]"
    unfolding float_lits by (simp only: list.map c dc r f s)
qed

lemma db_present_genres:
  "(\<exists>b\<in>set BOOKS_DATABASE. has_genre g b) \<longleftrightarrow>
   g \<in> set [''Classic Fiction'', ''Dystopian Fiction'', ''Romance'', ''Fantasy'', ''Science Fiction'']"
  by (auto simp: BOOKS_DATABASE_def has_genre_def)

section \<open>The claims of the specification\<close>

text \<open>
  C1. For every genre \<open>g\<close> that is the genre of at least one record, the average-rating
  tool returns a result whose genre is \<open>g\<close> and whose average rating is the floating-point
  mean of the ratings of exactly the records of genre \<open>g\<close>, every one of which
  contributes its float rating: their sum as the interpreter's \<open>sum\<close> computes it,
  divided by their number. The genres present are five, and the averages are the ones
  listed, for an interpreter that sums plainly and for one that compensates; the two differ
  on ``Dystopian Fiction'', in the last place.
\<close>

theorem average_rating_of_present_genre:
  assumes "\<exists>b\<in>set BOOKS_DATABASE. has_genre g b"
  shows "get_average_rating_by_genre alg BOOKS_DATABASE \<lparr>GenreInput.genre = g\<rparr> =
           Inr \<lparr>average_rating = mean alg (rating_values (filter (has_genre g) BOOKS_DATABASE)),
                genre = g\<rparr>
         \<and> map (\<lambda>b. map_of b ''rating'') (filter (has_genre g) BOOKS_DATABASE) =
             map (\<lambda>f. Some (VFloat f)) (rating_values (filter (has_genre g) BOOKS_DATABASE))
         \<and> g \<in> set [''Classic Fiction'', ''Dystopian Fiction'', ''Romance'', ''Fantasy'',
                     ''Science Fiction'']
         \<and> map (\<lambda>g. get_average_rating_by_genre Plain BOOKS_DATABASE \<lparr>GenreInput.genre = g\<rparr>)
             [''Classic Fiction'', ''Dystopian Fiction'', ''Romance'', ''Fantasy'',
              ''Science Fiction''] =
           [Inr \<lparr>average_rating = float_lit 4.5, genre = ''Classic Fiction''\<rparr>,
            Inr \<lparr>average_rating = Finite (5029019583897055 / 1125899906842624),
                 genre = ''Dystopian Fiction''\<rparr>,
            Inr \<lparr>average_rating = float_lit 4.6, genre = ''Romance''\<rparr>,
            Inr \<lparr>average_rating = float_lit 4.9, genre = ''Fantasy''\<rparr>,
            Inr \<lparr>average_rating = float_lit 4.7, genre = ''Science Fiction''\<rparr>]
         \<and> map (\<lambda>g. get_average_rating_by_genre Compensated BOOKS_DATABASE
                  \<lparr>GenreInput.genre = g\<rparr>)
             [''Classic Fiction'', ''Dystopian Fiction'', ''Romance'', ''Fantasy'',
              ''Science Fiction''] =
           [Inr \<lparr>average_rating = float_lit 4.5, genre = ''Classic Fiction''\<rparr>,
            Inr \<lparr>average_rating = Finite (2514509791948527 / 562949953421312),
                 genre = ''Dystopian Fiction''\<rparr>,
            Inr \<lparr>average_rating = float_lit 4.6, genre = ''Romance''\<rparr>,
            Inr \<lparr>average_rating = float_lit 4.9, genre = ''Fantasy''\<rparr>,
            Inr \<lparr>average_rating = float_lit 4.7, genre = ''Science Fiction''\<rparr>]"
proof -
  from assms have ne: "filter (has_genre g) BOOKS_DATABASE \<noteq> []"
    by (simp add: filter_empty_conv)
  have wf: "\<forall>b\<in>set (filter (has_genre g) BOOKS_DATABASE). well_formed b"
    using db_well_formed by simp
  have len: "length BOOKS_DATABASE \<le> 10"
    by (simp add: db_length)
  from average_general [OF db_well_formed len, of alg "\<lparr>GenreInput.genre = g\<rparr>"] ne
  have "get_average_rating_by_genre alg BOOKS_DATABASE \<lparr>GenreInput.genre = g\<rparr> =
           Inr \<lparr>average_rating = mean alg (rating_values (filter (has_genre g) BOOKS_DATABASE)),
                genre = g\<rparr>"
    by simp
  moreover note rating_values_map [OF wf]
  moreover from assms
  have "g \<in> set [''Classic Fiction'', ''Dystopian Fiction'', ''Romance'', ''Fantasy'',
                  ''Science Fiction'']"
    by (simp only: db_present_genres)
  ultimately show ?thesis
    using db_averages by (simp only: simp_thms)
qed

theorem average_rating_of_present_genre_witness:
  "filter (has_genre ''Dystopian Fiction'') BOOKS_DATABASE =
     [BOOKS_DATABASE ! 2, BOOKS_DATABASE ! 5, BOOKS_DATABASE ! 7]
   \<and> get_average_rating_by_genre Plain BOOKS_DATABASE
        \<lparr>GenreInput.genre = ''Dystopian Fiction''\<rparr> =
       Inr \<lparr>average_rating = Finite (5029019583897055 / 1125899906842624),
            genre = ''Dystopian Fiction''\<rparr>
   \<and> get_average_rating_by_genre Compensated BOOKS_DATABASE
        \<lparr>GenreInput.genre = ''Dystopian Fiction''\<rparr> =
       Inr \<lparr>average_rating = Finite (2514509791948527 / 562949953421312),
            genre = ''Dystopian Fiction''\<rparr>"
proof -
  have h: "\<exists>b\<in>set BOOKS_DATABASE. has_genre ''Dystopian Fiction'' b"
    by (simp add: db_present_genres)
  from average_rating_of_present_genre [OF h, of Plain]
    average_rating_of_present_genre [OF h, of Compensated]
  show ?thesis
    by (simp only: db_genres db_genre_ratings mean_dystopian_plain mean_dystopian_compensated
        simp_thms)
qed

text \<open>
  C2. For every genre \<open>g\<close> that is the genre of no record, the average-rating tool
  returns the average \<open>0.0\<close> with the genre \<open>g\<close>, and it does return.
\<close>

theorem average_rating_of_absent_genre:
  assumes "\<forall>b\<in>set BOOKS_DATABASE. \<not> has_genre g b"
  shows "get_average_rating_by_genre alg BOOKS_DATABASE \<lparr>GenreInput.genre = g\<rparr> =
           Inr \<lparr>average_rating = Finite 0, genre = g\<rparr>"
proof -
  from assms have e: "filter (has_genre g) BOOKS_DATABASE = []"
    by (simp add: filter_empty_conv)
  have len: "length BOOKS_DATABASE \<le> 10"
    by (simp add: db_length)
  from average_general [OF db_well_formed len, of alg "\<lparr>GenreInput.genre = g\<rparr>"] e
  show ?thesis by simp
qed

theorem average_rating_of_absent_genre_witness:
  "filter (has_genre ''Poetry'') BOOKS_DATABASE = []
   \<and> get_average_rating_by_genre Plain BOOKS_DATABASE \<lparr>GenreInput.genre = ''Poetry''\<rparr> =
       Inr \<lparr>average_rating = Finite 0, genre = ''Poetry''\<rparr>
   \<and> get_average_rating_by_genre Compensated BOOKS_DATABASE \<lparr>GenreInput.genre = ''Poetry''\<rparr> =
       Inr \<lparr>average_rating = Finite 0, genre = ''Poetry''\<rparr>"
  using average_rating_of_absent_genre [OF db_poetry_absent] db_poetry_absent
  by (simp add: filter_empty_conv)

text \<open>
  C3. For every threshold \<open>r\<close> the rating tool returns exactly the records whose rating
  is strictly greater than \<open>r\<close>, in the order of the collection; for a finite threshold
  these are the records whose rating, as a number, exceeds it. With the threshold \<open>4.8\<close>
  the result is the two records rated \<open>4.9\<close>, ``The Hobbit'' and ``The Lord of the
  Rings''; with \<open>4.9\<close> it is empty.
\<close>

theorem books_by_rating_above_strict:
  "get_books_by_rating_above BOOKS_DATABASE \<lparr>rating = r\<rparr> =
     Inr \<lparr>books = filter (rated_above r) BOOKS_DATABASE\<rparr>
   \<and> set (filter (rated_above (Finite q)) BOOKS_DATABASE) =
       {b \<in> set BOOKS_DATABASE. \<exists>q'. map_of b ''rating'' = Some (VFloat (Finite q')) \<and> q < q'}
   \<and> get_books_by_rating_above BOOKS_DATABASE \<lparr>rating = float_lit 4.8\<rparr> =
       Inr \<lparr>books = [BOOKS_DATABASE ! 6, BOOKS_DATABASE ! 9]\<rparr>
   \<and> filter (\<lambda>b. map_of b ''rating'' = Some (VFloat (float_lit 4.9))) BOOKS_DATABASE =
       [BOOKS_DATABASE ! 6, BOOKS_DATABASE ! 9]
   \<and> map_of (BOOKS_DATABASE ! 6) ''title'' = Some (VStr ''The Hobbit'')
   \<and> map_of (BOOKS_DATABASE ! 9) ''title'' = Some (VStr ''The Lord of the Rings'')
   \<and> get_books_by_rating_above BOOKS_DATABASE \<lparr>rating = float_lit 4.9\<rparr> = Inr \<lparr>books = []\<rparr>"
proof -
  have gen: "get_books_by_rating_above BOOKS_DATABASE \<lparr>rating = x\<rparr> =
      Inr \<lparr>books = filter (rated_above x) BOOKS_DATABASE\<rparr>" for x
    using books_by_rating_general [OF db_well_formed, of "\<lparr>rating = x\<rparr>"] by simp
  have fin: "rated_above (Finite q) b \<longleftrightarrow>
      (\<exists>q'. map_of b ''rating'' = Some (VFloat (Finite q')) \<and> q < q')"
    if "b \<in> set BOOKS_DATABASE" for b
    using db_rating_finite [OF that] by (auto simp: rated_above_def)
  have "set (filter (rated_above (Finite q)) BOOKS_DATABASE) =
       {b \<in> set BOOKS_DATABASE. \<exists>q'. map_of b ''rating'' = Some (VFloat (Finite q')) \<and> q < q'}"
    using fin by auto
  then show ?thesis
    by (simp only: gen db_above_48 db_above_49 db_rated_49 db_titles simp_thms)
qed

theorem books_by_rating_above_strict_witness:
  "get_books_by_rating_above BOOKS_DATABASE \<lparr>rating = float_lit 4.7\<rparr> =
     Inr \<lparr>books = [BOOKS_DATABASE ! 1, BOOKS_DATABASE ! 6, BOOKS_DATABASE ! 9]\<rparr>"
proof -
  have "filter (rated_above (float_lit 4.7)) BOOKS_DATABASE =
      [BOOKS_DATABASE ! 1, BOOKS_DATABASE ! 6, BOOKS_DATABASE ! 9]"
    unfolding BOOKS_DATABASE_def by (simp only: float_lits) (simp add: rated_above_def)
  with books_by_rating_above_strict [of "float_lit 4.7" 0] show ?thesis
    by (simp only:)
qed

text \<open>
  C4. For every genre \<open>g\<close> the genre tool returns exactly the records whose genre is the
  string \<open>g\<close>, compared exactly and with case; for \<open>Fantasy\<close> these are ``The Hobbit''
  and ``The Lord of the Rings'', and for \<open>fantasy\<close> there is none.
\<close>

theorem books_by_genre_exact:
  "get_books_by_genre BOOKS_DATABASE \<lparr>GenreInput.genre = g\<rparr> =
     Inr \<lparr>books = filter (has_genre g) BOOKS_DATABASE\<rparr>
   \<and> set (filter (has_genre g) BOOKS_DATABASE) =
       {b \<in> set BOOKS_DATABASE. map_of b ''genre'' = Some (VStr g)}
   \<and> get_books_by_genre BOOKS_DATABASE \<lparr>GenreInput.genre = ''Fantasy''\<rparr> =
       Inr \<lparr>books = [BOOKS_DATABASE ! 6, BOOKS_DATABASE ! 9]\<rparr>
   \<and> map_of (BOOKS_DATABASE ! 6) ''title'' = Some (VStr ''The Hobbit'')
   \<and> map_of (BOOKS_DATABASE ! 9) ''title'' = Some (VStr ''The Lord of the Rings'')
   \<and> get_books_by_genre BOOKS_DATABASE \<lparr>GenreInput.genre = ''fantasy''\<rparr> = Inr \<lparr>books = []\<rparr>"
proof -
  have gen: "get_books_by_genre BOOKS_DATABASE \<lparr>GenreInput.genre = x\<rparr> =
      Inr \<lparr>books = filter (has_genre x) BOOKS_DATABASE\<rparr>" for x
    using books_by_genre_general [OF db_well_formed, of "\<lparr>GenreInput.genre = x\<rparr>"] by simp
  have "set (filter (has_genre g) BOOKS_DATABASE) =
       {b \<in> set BOOKS_DATABASE. map_of b ''genre'' = Some (VStr g)}"
    by (auto simp: has_genre_def)
  then show ?thesis
    by (simp only: gen db_fantasy db_fantasy_lowercase db_titles simp_thms)
qed

theorem books_by_genre_exact_witness:
  "get_books_by_genre BOOKS_DATABASE \<lparr>GenreInput.genre = ''Romance''\<rparr> =
     Inr \<lparr>books = [BOOKS_DATABASE ! 3]\<rparr>"
proof -
  have "filter (has_genre ''Romance'') BOOKS_DATABASE = [BOOKS_DATABASE ! 3]"
    by (simp add: BOOKS_DATABASE_def has_genre_def)
  with books_by_genre_exact [of "''Romance''"] show ?thesis
    by (simp only:)
qed

text \<open>
  C5. For every integer \<open>y\<close> the year tool returns exactly the records whose year is
  \<open>y\<close>; for \<open>1949\<close> this is the one record titled ``1984'', and for \<open>2000\<close> there is
  none.
\<close>

theorem books_by_year_exact:
  "get_books_by_year BOOKS_DATABASE \<lparr>year = y\<rparr> =
     Inr \<lparr>books = filter (has_year y) BOOKS_DATABASE\<rparr>
   \<and> set (filter (has_year y) BOOKS_DATABASE) =
       {b \<in> set BOOKS_DATABASE. map_of b ''year'' = Some (VInt y)}
   \<and> get_books_by_year BOOKS_DATABASE \<lparr>year = 1949\<rparr> = Inr \<lparr>books = [BOOKS_DATABASE ! 2]\<rparr>
   \<and> map_of (BOOKS_DATABASE ! 2) ''title'' = Some (VStr ''1984'')
   \<and> get_books_by_year BOOKS_DATABASE \<lparr>year = 2000\<rparr> = Inr \<lparr>books = []\<rparr>"
proof -
  have gen: "get_books_by_year BOOKS_DATABASE \<lparr>year = x\<rparr> =
      Inr \<lparr>books = filter (has_year x) BOOKS_DATABASE\<rparr>" for x
    using books_by_year_general [OF db_well_formed, of "\<lparr>year = x\<rparr>"] by simp
  have "set (filter (has_year y) BOOKS_DATABASE) =
       {b \<in> set BOOKS_DATABASE. map_of b ''year'' = Some (VInt y)}"
    by (auto simp: has_year_def)
  then show ?thesis
    by (simp only: gen db_year_1949 db_year_2000 db_titles simp_thms)
qed

theorem books_by_year_exact_witness:
  "get_books_by_year BOOKS_DATABASE \<lparr>year = 1965\<rparr> = Inr \<lparr>books = [BOOKS_DATABASE ! 8]\<rparr>"
proof -
  have "filter (has_year 1965) BOOKS_DATABASE = [BOOKS_DATABASE ! 8]"
    by (simp add: BOOKS_DATABASE_def has_year_def)
  with books_by_year_exact [of 1965] show ?thesis
    by (simp only:)
qed

text \<open>
  C6. On the collection, each of the four tools returns a result for every input of its
  input type, whatever the genre string, the float threshold (infinities and NaN
  included) or the year, and whichever way the interpreter sums: no \<open>KeyError\<close>,
  \<open>TypeError\<close>, \<open>ZeroDivisionError\<close> or \<open>OverflowError\<close> branch of the functions is
  reached.
\<close>

theorem tools_never_raise:
  "(\<exists>res. get_average_rating_by_genre alg BOOKS_DATABASE genre_params = Inr res)
   \<and> (\<exists>res. get_books_by_genre BOOKS_DATABASE genre_params' = Inr res)
   \<and> (\<exists>res. get_books_by_rating_above BOOKS_DATABASE rating_params = Inr res)
   \<and> (\<exists>res. get_books_by_year BOOKS_DATABASE year_params = Inr res)
   \<and> (\<exists>out. run_tool alg c BOOKS_DATABASE = Inr out)"
proof -
  have len: "length BOOKS_DATABASE \<le> 10"
    by (simp add: db_length)
  note a = average_general [OF db_well_formed len]
  note g = books_by_genre_general [OF db_well_formed]
  note r = books_by_rating_general [OF db_well_formed]
  note y = books_by_year_general [OF db_well_formed]
  have "\<exists>out. run_tool alg c BOOKS_DATABASE = Inr out"
    by (cases c) (simp_all add: a g r y)
  then show ?thesis
    by (simp add: a g r y)
qed

theorem tools_never_raise_witness:
  "get_average_rating_by_genre Compensated BOOKS_DATABASE \<lparr>GenreInput.genre = []\<rparr> =
     Inr \<lparr>average_rating = Finite 0, genre = []\<rparr>
   \<and> get_books_by_genre BOOKS_DATABASE \<lparr>GenreInput.genre = []\<rparr> = Inr \<lparr>books = []\<rparr>
   \<and> get_books_by_rating_above BOOKS_DATABASE \<lparr>rating = NaN\<rparr> = Inr \<lparr>books = []\<rparr>
   \<and> get_books_by_year BOOKS_DATABASE \<lparr>year = - 1\<rparr> = Inr \<lparr>books = []\<rparr>"
proof -
  from tools_never_raise [of Compensated "\<lparr>GenreInput.genre = []\<rparr>" "\<lparr>GenreInput.genre = []\<rparr>"
      "\<lparr>rating = NaN\<rparr>" "\<lparr>year = - 1\<rparr>" "Books_by_year \<lparr>year = - 1\<rparr>"]
  obtain r1 r2 r3 r4 where
    r1: "get_average_rating_by_genre Compensated BOOKS_DATABASE \<lparr>GenreInput.genre = []\<rparr> =
      Inr r1" and
    r2: "get_books_by_genre BOOKS_DATABASE \<lparr>GenreInput.genre = []\<rparr> = Inr r2" and
    r3: "get_books_by_rating_above BOOKS_DATABASE \<lparr>rating = NaN\<rparr> = Inr r3" and
    r4: "get_books_by_year BOOKS_DATABASE \<lparr>year = - 1\<rparr> = Inr r4"
    by blast
  have c1: "comprehension (genre_is []) BOOKS_DATABASE = Inr []"
    by (simp add: BOOKS_DATABASE_def genre_is_def getitem_def)
  have c3: "comprehension (rating_above NaN) BOOKS_DATABASE = Inr []"
    by (simp add: BOOKS_DATABASE_def rating_above_def getitem_def py_gt_float_def)
  have c4: "comprehension (year_is (- 1)) BOOKS_DATABASE = Inr []"
    by (simp add: BOOKS_DATABASE_def year_is_def getitem_def)
  from r1 r2 r3 r4 show ?thesis
    by (simp add: get_average_rating_by_genre_def average_of_def get_books_by_genre_def
        get_books_by_rating_above_def get_books_by_year_def c1 c3 c4 float_lit_0)
qed

text \<open>
  C7. From the store of the module as it is after any run of the server, invoking a tool
  twice in succession with the same input gives the same output twice: the first
  invocation creates a list, and the second computes the tool on the same records as
  the first, those of the literal.
\<close>

theorem invoke_twice_same_output:
  "fst (invoke alg c (snd (invoke alg c (snd (serve alg cs initial_store))))) =
     fst (invoke alg c (snd (serve alg cs initial_store)))
   \<and> fst (invoke alg c (snd (serve alg cs initial_store))) = run_tool alg c BOOKS_DATABASE
   \<and> fst (serve alg (cs @ [c, c]) initial_store) =
       map (\<lambda>c. run_tool alg c BOOKS_DATABASE) cs
         @ [run_tool alg c BOOKS_DATABASE, run_tool alg c BOOKS_DATABASE]"
proof -
  let ?s = "snd (serve alg cs initial_store)"
  from serve_spec [OF collection_initial, of alg cs]
  have s: "collection ?s = Inr BOOKS_DATABASE" by simp
  from serve_spec [OF collection_initial, of alg "cs @ [c, c]"]
    invoke_output [OF s, of alg c]
    invoke_output [OF invoke_collection [OF s, of alg c], of alg c]
  show ?thesis by simp
qed

theorem invoke_twice_same_output_witness:
  "fst (serve Plain [Books_by_year \<lparr>year = 1949\<rparr>, Books_by_year \<lparr>year = 1949\<rparr>]
         initial_store) =
     [Inr (Books \<lparr>books = [BOOKS_DATABASE ! 2]\<rparr>), Inr (Books \<lparr>books = [BOOKS_DATABASE ! 2]\<rparr>)]"
proof -
  have "run_tool Plain (Books_by_year \<lparr>year = 1949\<rparr>) BOOKS_DATABASE =
      Inr (Books \<lparr>books = [BOOKS_DATABASE ! 2]\<rparr>)"
    using books_by_year_general [OF db_well_formed, of "\<lparr>year = 1949\<rparr>"]
    by (simp add: db_year_1949)
  with invoke_twice_same_output [of Plain "Books_by_year \<lparr>year = 1949\<rparr>" "[]"]
  show ?thesis by simp
qed

text \<open>
  C8. An invocation leaves every object that existed before it as it was, and the
  global bound to the same list: all it does to the store is to create objects. So the
  collection is the same before and after the call, and after every run of the server
  it is the collection of the literal: the same records, with the same values, in the
  same order.
\<close>

theorem collection_never_mutated:
  "(\<exists>new. heap (snd (invoke alg c s)) = heap s @ new)
   \<and> books_global (snd (invoke alg c s)) = books_global s
   \<and> (collection s = Inr db \<longrightarrow> collection (snd (invoke alg c s)) = Inr db)
   \<and> collection initial_store = Inr BOOKS_DATABASE
   \<and> collection (snd (serve alg cs initial_store)) = Inr BOOKS_DATABASE"
proof -
  from invoke_frame [of alg c s] obtain new where
    new: "snd (invoke alg c s) = s\<lparr>heap := heap s @ new\<rparr>"
    by blast
  then have "heap (snd (invoke alg c s)) = heap s @ new"
    and "books_global (snd (invoke alg c s)) = books_global s"
    by simp_all
  with invoke_collection [of s db alg c] collection_initial
    serve_spec [OF collection_initial, of alg cs]
  show ?thesis by blast
qed

theorem collection_never_mutated_witness:
  "collection initial_store = Inr BOOKS_DATABASE
   \<and> collection (snd (invoke Compensated
        (Average_rating_by_genre \<lparr>GenreInput.genre = ''Fantasy''\<rparr>) initial_store)) =
       Inr BOOKS_DATABASE
   \<and> collection (snd (serve Compensated
        [Average_rating_by_genre \<lparr>GenreInput.genre = ''Fantasy''\<rparr>,
         Books_by_genre \<lparr>GenreInput.genre = ''Fantasy''\<rparr>,
         Books_by_rating_above \<lparr>rating = float_lit 4.8\<rparr>,
         Books_by_year \<lparr>year = 1949\<rparr>] initial_store)) = Inr BOOKS_DATABASE"
  using collection_never_mutated [of Compensated
      "Average_rating_by_genre \<lparr>GenreInput.genre = ''Fantasy''\<rparr>" initial_store BOOKS_DATABASE]
    collection_never_mutated [of Compensated _ initial_store BOOKS_DATABASE
      "[Average_rating_by_genre \<lparr>GenreInput.genre = ''Fantasy''\<rparr>,
        Books_by_genre \<lparr>GenreInput.genre = ''Fantasy''\<rparr>,
        Books_by_rating_above \<lparr>rating = float_lit 4.8\<rparr>,
        Books_by_year \<lparr>year = 1949\<rparr>]"]
  by blast

text \<open>
  C9. The collection has exactly ten records; every \<open>id\<close> is a positive integer and no
  two records share one; every \<open>title\<close>, \<open>author\<close>, \<open>genre\<close> and \<open>isbn\<close> is a
  non-empty string.
\<close>

theorem data_model_invariants:
  "length BOOKS_DATABASE = 10
   \<and> (\<forall>b\<in>set BOOKS_DATABASE. \<exists>i. map_of b ''id'' = Some (VInt i) \<and> 0 < i)
   \<and> distinct (map (\<lambda>b. map_of b ''id'') BOOKS_DATABASE)
   \<and> (\<forall>b\<in>set BOOKS_DATABASE. \<forall>k\<in>{''title'', ''author'', ''genre'', ''isbn''}.
         \<exists>s. map_of b k = Some (VStr s) \<and> s \<noteq> [])"
proof -
  have p: "\<exists>i. map_of b k = Some (VInt i) \<and> 0 < i" if "positive_int_field k b" for k b
    using that by (auto simp: positive_int_field_def split: option.splits pyval.splits)
  have t: "\<exists>s. map_of b k = Some (VStr s) \<and> s \<noteq> []" if "nonempty_text_field k b" for k b
    using that by (auto simp: nonempty_text_field_def split: option.splits pyval.splits)
  from db_ids db_texts show ?thesis
    by (auto simp: db_length list_all_iff intro: p t)
qed

theorem data_model_invariants_witness:
  "length BOOKS_DATABASE = 10
   \<and> positive_int_field ''id'' (BOOKS_DATABASE ! 2)
   \<and> nonempty_text_field ''title'' (BOOKS_DATABASE ! 2)
   \<and> nonempty_text_field ''author'' (BOOKS_DATABASE ! 2)
   \<and> nonempty_text_field ''genre'' (BOOKS_DATABASE ! 2)
   \<and> nonempty_text_field ''isbn'' (BOOKS_DATABASE ! 2)"
proof -
  have m: "BOOKS_DATABASE ! 2 \<in> set BOOKS_DATABASE"
    by (simp add: db_length)
  from data_model_invariants have l: "length BOOKS_DATABASE = 10"
    and a: "\<forall>b\<in>set BOOKS_DATABASE. \<exists>i. map_of b ''id'' = Some (VInt i) \<and> 0 < i"
    and t: "\<forall>b\<in>set BOOKS_DATABASE. \<forall>k\<in>{''title'', ''author'', ''genre'', ''isbn''}.
         \<exists>s. map_of b k = Some (VStr s) \<and> s \<noteq> []"
    by blast+
  from bspec [OF a m] have i: "positive_int_field ''id'' (BOOKS_DATABASE ! 2)"
    by (auto simp: positive_int_field_def)
  from bspec [OF t m] have "nonempty_text_field k (BOOKS_DATABASE ! 2)"
    if "k \<in> {''title'', ''author'', ''genre'', ''isbn''}" for k
    using that by (auto simp: nonempty_text_field_def)
  with l i show ?thesis by simp
qed

text \<open>
  C10. For every input, each of the three record-returning tools returns the matching
  records, all of them and no other, as a subsequence of the collection: they keep
  their relative order, and none occurs twice.
\<close>

theorem results_are_subsequences:
  "(\<exists>bs. get_books_by_genre BOOKS_DATABASE genre_params = Inr \<lparr>books = bs\<rparr>
        \<and> bs = filter (has_genre (GenreInput.genre genre_params)) BOOKS_DATABASE
        \<and> set bs = {b \<in> set BOOKS_DATABASE.
             map_of b ''genre'' = Some (VStr (GenreInput.genre genre_params))}
        \<and> subseq bs BOOKS_DATABASE \<and> distinct bs)
   \<and> (\<exists>bs. get_books_by_rating_above BOOKS_DATABASE rating_params = Inr \<lparr>books = bs\<rparr>
        \<and> bs = filter (rated_above (rating rating_params)) BOOKS_DATABASE
        \<and> set bs = {b \<in> set BOOKS_DATABASE.
             \<exists>f. map_of b ''rating'' = Some (VFloat f) \<and> float_lt (rating rating_params) f}
        \<and> subseq bs BOOKS_DATABASE \<and> distinct bs)
   \<and> (\<exists>bs. get_books_by_year BOOKS_DATABASE year_params = Inr \<lparr>books = bs\<rparr>
        \<and> bs = filter (has_year (year year_params)) BOOKS_DATABASE
        \<and> set bs = {b \<in> set BOOKS_DATABASE. map_of b ''year'' = Some (VInt (year year_params))}
        \<and> subseq bs BOOKS_DATABASE \<and> distinct bs)"
proof -
  have g: "set (filter (has_genre x) BOOKS_DATABASE) =
      {b \<in> set BOOKS_DATABASE. map_of b ''genre'' = Some (VStr x)}" for x
    by (auto simp: has_genre_def)
  have "rated_above x b \<longleftrightarrow> (\<exists>f. map_of b ''rating'' = Some (VFloat f) \<and> float_lt x f)"
    for x b
    by (cases "map_of b ''rating''") (auto simp: rated_above_def split: pyval.splits)
  then have r: "set (filter (rated_above x) BOOKS_DATABASE) =
      {b \<in> set BOOKS_DATABASE. \<exists>f. map_of b ''rating'' = Some (VFloat f) \<and> float_lt x f}" for x
    by simp
  have y: "set (filter (has_year x) BOOKS_DATABASE) =
      {b \<in> set BOOKS_DATABASE. map_of b ''year'' = Some (VInt x)}" for x
    by (auto simp: has_year_def)
  from g [of "GenreInput.genre genre_params"] r [of "rating rating_params"]
    y [of "year year_params"]
  show ?thesis
    by (simp add: books_by_genre_general [OF db_well_formed]
        books_by_rating_general [OF db_well_formed] books_by_year_general [OF db_well_formed]
        db_distinct)
qed

theorem results_are_subsequences_witness:
  "get_books_by_genre BOOKS_DATABASE \<lparr>GenreInput.genre = ''Dystopian Fiction''\<rparr> =
     Inr \<lparr>books = [BOOKS_DATABASE ! 2, BOOKS_DATABASE ! 5, BOOKS_DATABASE ! 7]\<rparr>
   \<and> subseq [BOOKS_DATABASE ! 2, BOOKS_DATABASE ! 5, BOOKS_DATABASE ! 7] BOOKS_DATABASE
   \<and> distinct [BOOKS_DATABASE ! 2, BOOKS_DATABASE ! 5, BOOKS_DATABASE ! 7]"
proof -
  from results_are_subsequences [of "\<lparr>GenreInput.genre = ''Dystopian Fiction''\<rparr>"]
  obtain bs where
    "get_books_by_genre BOOKS_DATABASE \<lparr>GenreInput.genre = ''Dystopian Fiction''\<rparr> =
       Inr \<lparr>books = bs\<rparr>"
    and "bs = filter (has_genre ''Dystopian Fiction'') BOOKS_DATABASE"
    and "subseq bs BOOKS_DATABASE" and "distinct bs"
    by auto
  then show ?thesis by (simp only: db_genres simp_thms)
qed

end
